theory Spec2Isabelle
  imports Complex_Main "HOL-Library.Log_Nat"
begin

section \<open>Python values\<close>

text \<open>
  The values that \<^verbatim>\<open>json.loads\<close> and \<^verbatim>\<open>resp.json()\<close> produce. A Python
  \<^verbatim>\<open>dict\<close> is an association list in insertion order; a \<^verbatim>\<open>float\<close> is the
  rational number the double denotes, an infinity or \<^verbatim>\<open>nan\<close>. A Python \<^verbatim>\<open>str\<close>
  is a \<open>string\<close>, one \<open>char\<close> for each code point (the model covers the code
  points below 256). \<open>JNull\<close> is \<^verbatim>\<open>None\<close>.
\<close>

datatype pyfloat = Fin rat | PInf | NInf | NaN

datatype json =
    JNull
  | JBool bool
  | JInt int
  | JFloat pyfloat
  | JStr string
  | JArr "json list"
  | JObj "(string \<times> json) list"

datatype py_error =
    TypeError | AttributeError | KeyError | OverflowError | ValueError | ZeroDivisionError
  | ValidationError | TransportError

section \<open>Double-precision arithmetic\<close>

text \<open>
  A Python \<^verbatim>\<open>float\<close> is an IEEE 754 binary64 number. Every operation returns the
  exact result rounded to 53 significant bits, ties to even: \<open>b64\<close> is that rounding
  on the rationals, for the normal range (magnitudes from \<open>2 powi -1022\<close> up to
  \<open>2 powi 1024\<close>, which is where overflow begins).

  \<open>ilog2 x\<close> is the exponent \<open>e\<close> with \<open>2 powi e \<le> x < 2 powi (e + 1)\<close>, for \<open>x > 0\<close>.
\<close>

definition ilog2 :: "rat \<Rightarrow> int" where
  "ilog2 x = (let (p, q) = quotient_of x; e0 = bitlen p - bitlen q
              in if 2 powi e0 \<le> x then e0 else e0 - 1)"

definition round_half_even :: "rat \<Rightarrow> int" where
  "round_half_even y = (let f = \<lfloor>y\<rfloor>; d = y - of_int f
     in if d < 1/2 then f else if 1/2 < d then f + 1 else if even f then f else f + 1)"

definition b64 :: "rat \<Rightarrow> rat" where
  "b64 x = (if x = 0 then 0 else
     let u = 2 powi (ilog2 \<bar>x\<bar> - 52) in of_int (round_half_even (x / u)) * u)"

text \<open>
  \<open>fl_round x\<close> is the float that an operation with the exact result \<open>x\<close>
  returns: an infinity from \<open>2 powi 1024\<close> on, and below \<open>2 powi -1022\<close> a
  multiple of \<open>2 powi -1074\<close> (the subnormal numbers and zero; the sign of a zero
  is not kept).
\<close>

definition fl_round :: "rat \<Rightarrow> pyfloat" where
  "fl_round x =
     (if \<bar>x\<bar> < 2 powi (- 1022)
      then Fin (of_int (round_half_even (x / 2 powi (- 1074))) * 2 powi (- 1074))
      else let y = b64 x
           in if 2 powi 1024 \<le> \<bar>y\<bar> then (if 0 < x then PInf else NInf) else Fin y)"

text \<open>The operators \<^verbatim>\<open>*\<close>, \<^verbatim>\<open>+\<close> and \<^verbatim>\<open>/\<close> on floats.\<close>

fun fl_mul :: "pyfloat \<Rightarrow> pyfloat \<Rightarrow> pyfloat" where
  "fl_mul (Fin x) (Fin y) = fl_round (x * y)"
| "fl_mul NaN b = NaN"
| "fl_mul a NaN = NaN"
| "fl_mul (Fin x) PInf = (if x = 0 then NaN else if 0 < x then PInf else NInf)"
| "fl_mul (Fin x) NInf = (if x = 0 then NaN else if 0 < x then NInf else PInf)"
| "fl_mul PInf (Fin y) = (if y = 0 then NaN else if 0 < y then PInf else NInf)"
| "fl_mul NInf (Fin y) = (if y = 0 then NaN else if 0 < y then NInf else PInf)"
| "fl_mul PInf PInf = PInf"
| "fl_mul NInf NInf = PInf"
| "fl_mul PInf NInf = NInf"
| "fl_mul NInf PInf = NInf"

fun fl_add :: "pyfloat \<Rightarrow> pyfloat \<Rightarrow> pyfloat" where
  "fl_add (Fin x) (Fin y) = fl_round (x + y)"
| "fl_add NaN b = NaN"
| "fl_add a NaN = NaN"
| "fl_add PInf NInf = NaN"
| "fl_add NInf PInf = NaN"
| "fl_add PInf b = PInf"
| "fl_add NInf b = NInf"
| "fl_add a PInf = PInf"
| "fl_add a NInf = NInf"

fun fl_div :: "pyfloat \<Rightarrow> pyfloat \<Rightarrow> py_error + pyfloat" where
  "fl_div a (Fin y) =
     (if y = 0 then Inl ZeroDivisionError
      else case a of
             Fin x \<Rightarrow> Inr (fl_round (x / y))
           | PInf \<Rightarrow> Inr (if 0 < y then PInf else NInf)
           | NInf \<Rightarrow> Inr (if 0 < y then NInf else PInf)
           | NaN \<Rightarrow> Inr NaN)"
| "fl_div NaN b = Inr NaN"
| "fl_div a NaN = Inr NaN"
| "fl_div (Fin x) b = Inr (Fin 0)"
| "fl_div a b = Inr NaN"

text \<open>
  \<^verbatim>\<open>float(n)\<close> for an \<^verbatim>\<open>int\<close>, as the operators apply it to an \<^verbatim>\<open>int\<close> operand
  next to a float: \<^verbatim>\<open>OverflowError\<close> when \<open>n\<close> is too large for a double.
\<close>

definition float_of_int :: "int \<Rightarrow> py_error + pyfloat" where
  "float_of_int n =
     (let x = b64 (of_int n)
      in if 2 powi 1024 \<le> \<bar>x\<bar> then Inl OverflowError else Inr (Fin x))"

text \<open>\<^verbatim>\<open>int(x)\<close> for a float: the fractional part is dropped.\<close>

definition py_trunc :: "rat \<Rightarrow> int" where
  "py_trunc z = (if 0 \<le> z then \<lfloor>z\<rfloor> else \<lceil>z\<rceil>)"

definition int_of_float :: "pyfloat \<Rightarrow> py_error + int" where
  "int_of_float a =
     (case a of
        Fin x \<Rightarrow> Inr (py_trunc x)
      | PInf \<Rightarrow> Inl OverflowError
      | NInf \<Rightarrow> Inl OverflowError
      | NaN \<Rightarrow> Inl ValueError)"

subsection \<open>Properties of the rounding\<close>

lemma powi_nat: "0 \<le> k \<Longrightarrow> (2::rat) powi k = 2 ^ nat k"
  by (simp add: power_int_def)

lemma bitlen_powi_bounds:
  assumes "0 < (p::int)"
  shows "(2::rat) powi (bitlen p - 1) \<le> of_int p" and "of_int p < (2::rat) powi (bitlen p)"
proof -
  from bitlen_bounds [OF assms]
  have lo: "2 ^ nat (bitlen p - 1) \<le> p" and hi: "p < 2 ^ nat (bitlen p)" by auto
  have b: "1 \<le> bitlen p"
    using assms bitlen_nonneg [of p] bitlen_eq_zero_iff [of p] by (cases "bitlen p = 0") auto
  from lo have "(of_int (2 ^ nat (bitlen p - 1)) :: rat) \<le> of_int p" by (rule of_int_le_iff [THEN iffD2])
  then show "(2::rat) powi (bitlen p - 1) \<le> of_int p" using b by (simp add: powi_nat)
  from hi have "(of_int p :: rat) < of_int (2 ^ nat (bitlen p))" by (rule of_int_less_iff [THEN iffD2])
  then show "of_int p < (2::rat) powi (bitlen p)" using b by (simp add: powi_nat)
qed

lemma ilog2_bounds:
  assumes "0 < x"
  shows "2 powi (ilog2 x) \<le> x" and "x < 2 powi (ilog2 x + 1)"
proof -
  obtain p q where pq: "quotient_of x = (p, q)" by force
  have q: "0 < q" using quotient_of_denom_pos [OF pq] .
  have x: "x = of_int p / of_int q" using quotient_of_div [OF pq] .
  have p: "0 < p" using assms x q by (simp add: zero_less_divide_iff)
  note P = bitlen_powi_bounds [OF p] and Q = bitlen_powi_bounds [OF q]
  define e0 where "e0 = bitlen p - bitlen q"
  have il: "ilog2 x = (if 2 powi e0 \<le> x then e0 else e0 - 1)"
    by (simp add: ilog2_def pq e0_def Let_def)
  have qpos: "(0::rat) < of_int q" using q by simp
  have up: "x < 2 powi (e0 + 1)"
  proof -
    have "x < 2 powi (bitlen p) / 2 powi (bitlen q - 1)"
      unfolding x using P(2) Q(1) qpos p
      by (intro frac_less) auto
    also have "\<dots> = 2 powi (e0 + 1)"
      by (simp add: e0_def power_int_diff [symmetric] algebra_simps)
    finally show ?thesis .
  qed
  have lo: "2 powi (e0 - 1) \<le> x"
  proof -
    have "2 powi (bitlen p - 1) / 2 powi (bitlen q) \<le> x"
      unfolding x using P(1) Q(2) qpos p
      by (intro frac_le) auto
    moreover have "2 powi (bitlen p - 1) / 2 powi (bitlen q) = (2::rat) powi (e0 - 1)"
      by (simp add: e0_def power_int_diff [symmetric] algebra_simps)
    ultimately show ?thesis by simp
  qed
  show "2 powi (ilog2 x) \<le> x" using lo by (simp add: il)
  show "x < 2 powi (ilog2 x + 1)" using up by (auto simp: il not_le)
qed

lemma round_half_even_bounds:
  "\<bar>of_int (round_half_even y) - y\<bar> \<le> 1 / 2"
  unfolding round_half_even_def Let_def
  by (auto simp: abs_if) linarith+

lemma round_half_even_of_int [simp]: "round_half_even (of_int n) = n"
  by (simp add: round_half_even_def)

lemma floor_le_round_half_even: "\<lfloor>y\<rfloor> \<le> round_half_even y"
  by (simp add: round_half_even_def Let_def)

lemma ilog2_less: "0 < x \<Longrightarrow> x < 2 powi k \<Longrightarrow> ilog2 x < k"
proof -
  assume x: "0 < x" and k: "x < 2 powi k"
  have "(2::rat) powi (ilog2 x) < 2 powi k"
    using ilog2_bounds(1) [OF x] k by simp
  then show ?thesis
    by (metis not_le power_int_increasing one_le_numeral)
qed

lemma ilog2_ge: "2 powi k \<le> x \<Longrightarrow> k \<le> ilog2 x"
proof -
  assume k: "2 powi k \<le> x"
  have x: "0 < x" using k zero_less_power_int [of "2::rat" k] by linarith
  have "(2::rat) powi k < 2 powi (ilog2 x + 1)"
    using ilog2_bounds(2) [OF x] k by simp
  then have "k < ilog2 x + 1"
    by (metis not_le power_int_increasing one_le_numeral)
  then show ?thesis by simp
qed

lemma b64_pos_eq:
  "x \<noteq> 0 \<Longrightarrow> b64 x = of_int (round_half_even (x / 2 powi (ilog2 \<bar>x\<bar> - 52))) * 2 powi (ilog2 \<bar>x\<bar> - 52)"
  by (simp add: b64_def Let_def)

lemma b64_error:
  assumes "x \<noteq> 0"
  shows "\<bar>b64 x - x\<bar> \<le> 2 powi (ilog2 \<bar>x\<bar> - 53)"
proof -
  define u :: rat where "u = 2 powi (ilog2 \<bar>x\<bar> - 52)"
  have u: "0 < u" by (simp add: u_def)
  have "b64 x - x = (of_int (round_half_even (x / u)) - x / u) * u"
    using u by (simp add: b64_pos_eq [OF assms] u_def algebra_simps)
  then have "\<bar>b64 x - x\<bar> = \<bar>of_int (round_half_even (x / u)) - x / u\<bar> * u"
    using u by (simp add: abs_mult)
  also have "\<dots> \<le> (1 / 2) * u"
    using u round_half_even_bounds [of "x / u"] by (intro mult_right_mono) auto
  also have "\<dots> = 2 powi (ilog2 \<bar>x\<bar> - 53)"
    by (simp add: u_def power_int_diff)
  finally show ?thesis .
qed

lemma b64_rel_error: "\<bar>b64 x - x\<bar> \<le> \<bar>x\<bar> / 2 ^ 53"
proof (cases "x = 0")
  case True
  then show ?thesis by (simp add: b64_def)
next
  case False
  then have ax: "0 < \<bar>x\<bar>" by simp
  have "\<bar>b64 x - x\<bar> \<le> 2 powi (ilog2 \<bar>x\<bar> - 53)" by (rule b64_error [OF False])
  also have "\<dots> = 2 powi (ilog2 \<bar>x\<bar>) / 2 ^ 53"
    by (simp add: power_int_diff)
  also have "\<dots> \<le> \<bar>x\<bar> / 2 ^ 53"
    using ilog2_bounds(1) [OF ax] by (simp add: divide_right_mono)
  finally show ?thesis .
qed

lemma b64_lower:
  assumes "0 < x"
  shows "2 powi (ilog2 x) \<le> b64 x"
proof -
  define u :: rat where "u = 2 powi (ilog2 x - 52)"
  have u: "0 < u" by (simp add: u_def)
  have "2 powi (ilog2 x) / u \<le> x / u"
    using ilog2_bounds(1) [OF assms] u by (simp add: divide_right_mono)
  moreover have "2 powi (ilog2 x) / u = (2::rat) ^ 52"
    by (simp add: u_def power_int_diff)
  ultimately have "(of_int (2 ^ 52) :: rat) \<le> x / u" by simp
  then have "2 ^ 52 \<le> \<lfloor>x / u\<rfloor>" by (simp only: le_floor_iff)
  then have "2 ^ 52 \<le> round_half_even (x / u)"
    using floor_le_round_half_even [of "x / u"] by linarith
  then have "(of_int (2 ^ 52) :: rat) \<le> of_int (round_half_even (x / u))"
    by (simp only: of_int_le_iff)
  then have "(2 ^ 52) * u \<le> of_int (round_half_even (x / u)) * u"
    using u by (simp add: mult_right_mono)
  moreover have "(2 ^ 52) * u = 2 powi (ilog2 x)"
    by (simp add: u_def power_int_diff)
  moreover have "b64 x = of_int (round_half_even (x / u)) * u"
    using assms by (simp add: b64_pos_eq u_def)
  ultimately show ?thesis by simp
qed

lemma b64_ge_one: "1 \<le> x \<Longrightarrow> 1 \<le> b64 x"
proof -
  assume x: "1 \<le> x"
  then have "2 powi 0 \<le> x" by simp
  then have "0 \<le> ilog2 x" by (rule ilog2_ge)
  then have "(1::rat) \<le> 2 powi (ilog2 x)" by simp
  also have "\<dots> \<le> b64 x" using x by (intro b64_lower) simp
  finally show ?thesis .
qed

lemma b64_half_int:
  assumes "0 < n" and "n < 2 ^ 53"
  shows "b64 (of_int n / 2) = of_int n / 2"
proof -
  define x :: rat where "x = of_int n / 2"
  have x: "0 < x" using assms(1) by (simp add: x_def)
  have "x < 2 powi 52"
  proof -
    have "(of_int n :: rat) < of_int (2 ^ 53)" using assms(2) by (simp only: of_int_less_iff)
    then show ?thesis by (simp add: x_def)
  qed
  then have e: "ilog2 x < 52" using x by (intro ilog2_less)
  define k where "k = nat (51 - ilog2 x)"
  have k: "int k = 51 - ilog2 x" using e by (simp add: k_def)
  have "x / 2 powi (ilog2 x - 52) = x * 2 powi (52 - ilog2 x)"
    by (simp add: power_int_diff field_simps)
  also have "52 - ilog2 x = int k + 1" using k by simp
  also have "x * 2 powi (int k + 1) = of_int (n * 2 ^ k)"
    by (simp add: x_def power_int_add)
  finally have q: "x / 2 powi (ilog2 x - 52) = of_int (n * 2 ^ k)" .
  have "b64 x = of_int (n * 2 ^ k) * 2 powi (ilog2 x - 52)"
    using x by (simp add: b64_pos_eq q del: of_int_mult of_int_power)
  also have "\<dots> = x / 2 powi (ilog2 x - 52) * 2 powi (ilog2 x - 52)"
    by (simp only: q)
  also have "\<dots> = x" by simp
  finally show ?thesis by (simp add: x_def)
qed

lemma ilog2_eq: "2 powi e \<le> x \<Longrightarrow> x < 2 powi (e + 1) \<Longrightarrow> ilog2 x = e"
proof -
  assume lo: "2 powi e \<le> x" and hi: "x < 2 powi (e + 1)"
  have x: "0 < x" using lo zero_less_power_int [of "2::rat" e] by linarith
  have "e \<le> ilog2 x" using lo by (rule ilog2_ge)
  moreover have "ilog2 x < e + 1" using x hi by (rule ilog2_less)
  ultimately show ?thesis by simp
qed

lemma round_half_even_frac:
  assumes "0 < b"
  shows "round_half_even (of_int a / of_int b) =
           (if 2 * (a mod b) < b then a div b
            else if b < 2 * (a mod b) then a div b + 1
            else if even (a div b) then a div b else a div b + 1)"
proof -
  have fl: "\<lfloor>(of_int a / of_int b :: rat)\<rfloor> = a div b" by (rule floor_divide_of_int_eq)
  have "a = a div b * b + a mod b" by simp
  then have "(of_int a :: rat) = of_int (a div b) * of_int b + of_int (a mod b)"
    by (metis of_int_add of_int_mult)
  then have "(of_int a / of_int b :: rat) = of_int (a div b) + of_int (a mod b) / of_int b"
    using assms by (simp add: field_simps)
  then have d: "(of_int a / of_int b :: rat) - of_int (a div b) = of_int (a mod b) / of_int b" by simp
  have lt: "(of_int (a mod b) / of_int b :: rat) < 1 / 2 \<longleftrightarrow> 2 * (a mod b) < b"
  proof -
    have "(of_int (a mod b) / of_int b :: rat) < 1 / 2 \<longleftrightarrow> (of_int (2 * (a mod b)) :: rat) < of_int b"
      using assms by (simp add: field_simps)
    then show ?thesis by (simp only: of_int_less_iff)
  qed
  have gt: "(1 / 2 :: rat) < of_int (a mod b) / of_int b \<longleftrightarrow> b < 2 * (a mod b)"
  proof -
    have "(1 / 2 :: rat) < of_int (a mod b) / of_int b \<longleftrightarrow> (of_int b :: rat) < of_int (2 * (a mod b))"
      using assms by (simp add: field_simps)
    then show ?thesis by (simp only: of_int_less_iff)
  qed
  show ?thesis
    by (simp only: round_half_even_def Let_def fl d lt gt)
qed

lemma round_half_even_numeral:
  "round_half_even (numeral a / numeral b) =
     (if 2 * (numeral a mod numeral b) < (numeral b :: int) then numeral a div numeral b
      else if (numeral b :: int) < 2 * (numeral a mod numeral b) then numeral a div numeral b + 1
      else if even (numeral a div numeral b :: int) then numeral a div numeral b
      else numeral a div numeral b + 1)"
  using round_half_even_frac [of "numeral b" "numeral a"] by simp

lemma floor_numeral_div: "\<lfloor>(numeral a / numeral b :: rat)\<rfloor> = numeral a div numeral b"
  using floor_divide_of_int_eq [of "numeral a" "numeral b", where ?'a = rat] by simp

lemma round_half_even_numeral_int: "round_half_even (numeral a) = numeral a"
  using round_half_even_of_int [of "numeral a"] by simp

text \<open>
  The rounding of a fraction \<open>a / b\<close> whose exponent \<open>e\<close> is known: with
  \<open>u = 2 powi (e - 52)\<close> written as \<open>un / ud\<close>.
\<close>

lemma b64_frac:
  assumes "0 < a" and "0 < b" and "0 < un" and "0 < ud"
    and "(2::rat) powi (e - 52) = of_int un / of_int ud"
    and "of_int un * 2 ^ 52 * of_int b \<le> (of_int a * of_int ud :: rat)"
    and "(of_int a * of_int ud :: rat) < of_int un * 2 ^ 53 * of_int b"
  shows "b64 (of_int a / of_int b) =
           of_int (round_half_even (of_int (a * ud) / of_int (b * un))) * (of_int un / of_int ud)"
proof -
  define x :: rat where "x = of_int a / of_int b"
  define u :: rat where "u = of_int un / of_int ud"
  have u: "0 < u" using assms(3,4) by (simp add: u_def)
  have x: "0 < x" using assms(1,2) by (simp add: x_def)
  have pe: "(2::rat) powi e = u * 2 ^ 52"
    using assms(5) by (simp add: power_int_diff u_def)
  have pe1: "(2::rat) powi (e + 1) = u * 2 ^ 53"
    using pe by (simp add: power_int_add)
  have "u * 2 ^ 52 \<le> x"
    using assms(1-4,6) by (simp add: u_def x_def field_simps)
  then have lo: "2 powi e \<le> x" by (simp only: pe)
  have "x < u * 2 ^ 53"
    using assms(1-4,7) by (simp add: u_def x_def field_simps)
  then have hi: "x < 2 powi (e + 1)" by (simp only: pe1)
  have "ilog2 \<bar>x\<bar> = e" using lo hi x by (simp add: ilog2_eq)
  then have "b64 x = of_int (round_half_even (x / u)) * u"
    using x assms(5) by (simp add: b64_pos_eq u_def)
  moreover have "x / u = of_int (a * ud) / of_int (b * un)"
    using assms(1-4) by (simp add: x_def u_def field_simps)
  ultimately show ?thesis by (simp add: x_def u_def)
qed

section \<open>The JSON recovery parser\<close>

text \<open>
  \<^verbatim>\<open>extract_json_from_response\<close> of \<^verbatim>\<open>architect_mcp/ollama_utils.py\<close> (lines 61-90);
  the copy in \<^verbatim>\<open>architect_mcp/llm_client.py\<close> (lines 159-187) has the same body.
\<close>

subsection \<open>Whitespace and \<^verbatim>\<open>str.strip\<close>\<close>

text \<open>
  The characters that \<^verbatim>\<open>str.isspace\<close>, \<^verbatim>\<open>str.strip()\<close> and the class \<^verbatim>\<open>\s\<close> of a
  \<^verbatim>\<open>str\<close> pattern accept, among the code points below 256.
\<close>

definition is_space :: "char \<Rightarrow> bool" where
  "is_space c = (of_char c \<in> {9, 10, 11, 12, 13, 28, 29, 30, 31, 32, 133, 160 :: nat})"

definition strip :: "string \<Rightarrow> string" where
  "strip s = rev (dropWhile is_space (rev (dropWhile is_space s)))"

subsection \<open>\<^verbatim>\<open>re.findall\<close> for the four patterns\<close>

text \<open>
  The fence of a code block, three backquotes.
\<close>

definition fence :: string where
  "fence = [CHR 0x60, CHR 0x60, CHR 0x60]"

text \<open>
  \<open>closes_here s\<close>: the text \<open>s\<close> starts with a match of \<^verbatim>\<open>\s*```\<close>; the result is
  what follows the match. The greedy \<^verbatim>\<open>\s*\<close> takes the whole run of whitespace, and
  giving some of it back cannot help, since a whitespace character is no backquote.
\<close>

definition closes_here :: "string \<Rightarrow> string option" where
  "closes_here s =
     (let r = dropWhile is_space s
      in if take 3 r = fence then Some (drop 3 r) else None)"

text \<open>
  \<open>lazy_group s\<close>: a match of \<^verbatim>\<open>([\s\S]*?)\s*```\<close> at the start of \<open>s\<close>. The lazy
  group first tries to be empty and takes one more character (any character) each time
  the rest of the pattern fails. The result is the group and the text after the match.
\<close>

fun lazy_group :: "string \<Rightarrow> (string \<times> string) option" where
  "lazy_group [] = map_option (\<lambda>rest. ([], rest)) (closes_here [])"
| "lazy_group (c # cs) =
     (case closes_here (c # cs) of
        Some rest \<Rightarrow> Some ([], rest)
      | None \<Rightarrow> map_option (\<lambda>(g, rest). (c # g, rest)) (lazy_group cs))"

text \<open>
  \<open>match_fenced tag s\<close>: a match of \<^verbatim>\<open>tag\s*([\s\S]*?)\s*```\<close> at the start of \<open>s\<close>.
  The first \<^verbatim>\<open>\s*\<close> is greedy; when the match fails with the whole run of whitespace
  taken it fails with less of it too, because the closing \<^verbatim>\<open>\s*```\<close> would then have
  to start inside that run and so matches from its end as well.
\<close>

definition match_fenced :: "string \<Rightarrow> string \<Rightarrow> (string \<times> string) option" where
  "match_fenced tag s =
     (if take (length tag) s = tag
      then lazy_group (dropWhile is_space (drop (length tag) s))
      else None)"

lemma closes_here_length: "closes_here s = Some rest \<Longrightarrow> length rest < length s"
proof -
  assume a: "closes_here s = Some rest"
  have "length (dropWhile is_space s) \<le> length s"
    by (rule length_dropWhile_le)
  moreover from a have "take 3 (dropWhile is_space s) = fence" and "rest = drop 3 (dropWhile is_space s)"
    by (auto simp: closes_here_def Let_def split: if_splits)
  moreover from this have "length (dropWhile is_space s) \<ge> 3"
    by (metis fence_def length_Cons list.size(3) length_take min.cobounded1 numeral_3_eq_3)
  ultimately show ?thesis by simp
qed

lemma lazy_group_length: "lazy_group s = Some (g, rest) \<Longrightarrow> length rest < length s"
proof (induction s arbitrary: g)
  case Nil
  then show ?case by (auto dest: closes_here_length)
next
  case (Cons c cs)
  then show ?case
    by (fastforce split: option.splits dest: closes_here_length)
qed

lemma match_fenced_length: "match_fenced tag s = Some (g, rest) \<Longrightarrow> length rest < length s"
proof -
  assume "match_fenced tag s = Some (g, rest)"
  then have "lazy_group (dropWhile is_space (drop (length tag) s)) = Some (g, rest)"
    by (simp add: match_fenced_def split: if_splits)
  then have "length rest < length (dropWhile is_space (drop (length tag) s))"
    by (rule lazy_group_length)
  also have "\<dots> \<le> length (drop (length tag) s)"
    by (rule length_dropWhile_le)
  also have "\<dots> \<le> length s"
    by simp
  finally show ?thesis .
qed

text \<open>
  \<open>findall_fenced tag s\<close>: \<^verbatim>\<open>re.findall\<close> of the pattern above, which returns the
  group of each match, scanning from the left and resuming after each match; where no
  match starts, the scan moves one character on.
\<close>

function findall_fenced :: "string \<Rightarrow> string \<Rightarrow> string list" where
  "findall_fenced tag [] = []"
| "findall_fenced tag (c # cs) =
     (case match_fenced tag (c # cs) of
        Some (g, rest) \<Rightarrow> g # findall_fenced tag rest
      | None \<Rightarrow> findall_fenced tag cs)"
  by pat_completeness auto
termination
  by (relation "measure (\<lambda>(tag, s). length s)") (auto dest: match_fenced_length)

text \<open>
  \<open>findall_greedy a b s\<close>: \<^verbatim>\<open>re.findall\<close> of \<^verbatim>\<open>a[\s\S]*b\<close> for two characters
  \<open>a\<close> and \<open>b\<close>. The leftmost \<open>a\<close> starts the match and the greedy star runs to the
  last \<open>b\<close> of the text; nothing after that match holds a \<open>b\<close>, so there is at most
  one match.
\<close>

definition upto_last :: "char \<Rightarrow> string \<Rightarrow> string" where
  "upto_last b s = rev (dropWhile (\<lambda>c. c \<noteq> b) (rev s))"

definition findall_greedy :: "char \<Rightarrow> char \<Rightarrow> string \<Rightarrow> string list" where
  "findall_greedy a b s =
     (case dropWhile (\<lambda>c. c \<noteq> a) s of
        [] \<Rightarrow> []
      | _ # cs \<Rightarrow> if b \<in> set cs then [a # upto_last b cs] else [])"

text \<open>The list \<^verbatim>\<open>json_patterns\<close>, each pattern with its \<^verbatim>\<open>re.findall\<close>.\<close>

definition json_patterns :: "(string \<Rightarrow> string list) list" where
  "json_patterns =
     [ findall_fenced (fence @ ''json''),
       findall_fenced fence,
       findall_greedy (CHR ''{'') (CHR ''}''),
       findall_greedy (CHR ''['') (CHR '']'') ]"

subsection \<open>The extraction\<close>

text \<open>
  \<^verbatim>\<open>json.loads\<close> belongs to the Python library: the extraction takes it as the
  parameter \<open>loads\<close>, with \<open>None\<close> for \<^verbatim>\<open>json.JSONDecodeError\<close>.

  \<open>try_matches\<close> is the inner loop over the matches of one pattern, \<open>try_patterns\<close>
  the outer loop over the patterns; both return at the first match that parses.
\<close>

fun try_matches :: "(string \<Rightarrow> json option) \<Rightarrow> string list \<Rightarrow> json option" where
  "try_matches loads [] = None"
| "try_matches loads (m # ms) =
     (case loads (strip m) of
        Some parsed \<Rightarrow> Some parsed
      | None \<Rightarrow> try_matches loads ms)"

fun try_patterns ::
  "(string \<Rightarrow> json option) \<Rightarrow> (string \<Rightarrow> string list) list \<Rightarrow> string \<Rightarrow> json option" where
  "try_patterns loads [] response = None"
| "try_patterns loads (p # ps) response =
     (case try_matches loads (p response) of
        Some parsed \<Rightarrow> Some parsed
      | None \<Rightarrow> try_patterns loads ps response)"

definition parse_failure :: "string \<Rightarrow> json" where
  "parse_failure response =
     JObj [(''error'', JStr ''Failed to parse LLM response''),
           (''raw_response'', JStr (take 500 response))]"

definition extract_json_from_response :: "(string \<Rightarrow> json option) \<Rightarrow> string \<Rightarrow> json" where
  "extract_json_from_response loads response =
     (case try_patterns loads json_patterns response of
        Some parsed \<Rightarrow> parsed
      | None \<Rightarrow>
          (case loads (strip response) of
             Some parsed \<Rightarrow> parsed
           | None \<Rightarrow> parse_failure response))"

text \<open>
  The texts the extraction hands to \<^verbatim>\<open>json.loads\<close>, in the order it tries them.
\<close>

definition candidates :: "string \<Rightarrow> string list" where
  "candidates response =
     map strip (concat (map (\<lambda>p. p response) json_patterns)) @ [strip response]"

subsection \<open>A model of \<^verbatim>\<open>json.loads\<close>\<close>

text \<open>
  The theorems below hold for every \<open>loads\<close>. To run the extraction on a text,
  \<open>json_loads\<close> follows the decoder of the Python library (\<^verbatim>\<open>json/decoder.py\<close>
  and \<^verbatim>\<open>json/scanner.py\<close>): \<open>scan_once\<close>, \<open>scan_array\<close>, \<open>scan_object\<close>,
  \<open>scan_string\<close> and \<open>scan_number\<close> after the functions of the same role there.
  The first argument of the three mutually recursive scanners bounds the number of
  nested calls, so that the recursion is structural; \<open>json_loads\<close> starts them with
  more than the length of the text, which no nesting exceeds. Outside the model, and
  reported as errors: hexadecimal escapes of code points from 256 on.
\<close>

definition is_json_ws :: "char \<Rightarrow> bool" where
  "is_json_ws c = (c = CHR '' '' \<or> c = CHR 0x09 \<or> c = CHR 0x0A \<or> c = CHR 0x0D)"

definition skip_ws :: "string \<Rightarrow> string" where
  "skip_ws = dropWhile is_json_ws"

definition is_digit :: "char \<Rightarrow> bool" where
  "is_digit c = (48 \<le> (of_char c :: nat) \<and> (of_char c :: nat) \<le> 57)"

definition nat_of_digits :: "string \<Rightarrow> nat" where
  "nat_of_digits ds = foldl (\<lambda>a c. 10 * a + (of_char c - 48)) 0 ds"

definition hex_val :: "char \<Rightarrow> nat option" where
  "hex_val c = (let n = of_char c :: nat in
     if 48 \<le> n \<and> n \<le> 57 then Some (n - 48)
     else if 65 \<le> n \<and> n \<le> 70 then Some (n - 55)
     else if 97 \<le> n \<and> n \<le> 102 then Some (n - 87)
     else None)"

definition scan_number :: "string \<Rightarrow> (json \<times> string) option" where
  "scan_number s =
     (let (neg, s1) = (case s of c # t \<Rightarrow> if c = CHR ''-'' then (True, t) else (False, s) | [] \<Rightarrow> (False, s));
          ip = (case s1 of c # t \<Rightarrow> if c = CHR ''0'' then [c] else takeWhile is_digit s1 | [] \<Rightarrow> []);
          s2 = drop (length ip) s1;
          fp = (case s2 of c # t \<Rightarrow> if c = CHR ''.'' then takeWhile is_digit t else [] | [] \<Rightarrow> []);
          s3 = (if fp = [] then s2 else drop (1 + length fp) s2);
          (ex, s4) = (case s3 of
              c # t \<Rightarrow>
                if c = CHR ''e'' \<or> c = CHR ''E'' then
                  (let (eneg, t1) = (case t of d # t' \<Rightarrow>
                          if d = CHR ''-'' then (True, t') else if d = CHR ''+'' then (False, t') else (False, t)
                        | [] \<Rightarrow> (False, t));
                       ed = takeWhile is_digit t1
                   in if ed = [] then (None, s3)
                      else (Some (if eneg then - int (nat_of_digits ed) else int (nat_of_digits ed)),
                            drop (length ed) t1))
                else (None, s3)
            | [] \<Rightarrow> (None, s3))
      in if ip = [] then None
         else if fp = [] \<and> ex = None
         then Some (JInt (if neg then - int (nat_of_digits ip) else int (nat_of_digits ip)), s4)
         else
           (let m = (of_nat (nat_of_digits ip) + of_nat (nat_of_digits fp) / 10 ^ length fp) *
                    10 powi (case ex of None \<Rightarrow> 0 | Some e \<Rightarrow> e)
            in Some (JFloat (fl_round (if neg then - m else m)), s4)))"

fun scan_string :: "string \<Rightarrow> string \<Rightarrow> (string \<times> string) option" where
  "scan_string acc [] = None"
| "scan_string acc (c # cs) =
     (if c = CHR 0x22 then Some (rev acc, cs)
      else if c = CHR 0x5C then
        (case cs of
           [] \<Rightarrow> None
         | e # es \<Rightarrow>
             if e = CHR 0x22 \<or> e = CHR 0x5C \<or> e = CHR ''/'' then scan_string (e # acc) es
             else if e = CHR ''b'' then scan_string (CHR 0x08 # acc) es
             else if e = CHR ''f'' then scan_string (CHR 0x0C # acc) es
             else if e = CHR ''n'' then scan_string (CHR 0x0A # acc) es
             else if e = CHR ''r'' then scan_string (CHR 0x0D # acc) es
             else if e = CHR ''t'' then scan_string (CHR 0x09 # acc) es
             else if e = CHR ''u'' then
               (case map hex_val (take 4 es) of
                  [Some a, Some b, Some c', Some d] \<Rightarrow>
                    if a = 0 \<and> b = 0 then scan_string (char_of (16 * c' + d) # acc) (drop 4 es)
                    else None
                | _ \<Rightarrow> None)
             else None)
      else if (of_char c :: nat) < 32 then None
      else scan_string (c # acc) cs)"

definition dict_set :: "(string \<times> json) list \<Rightarrow> string \<Rightarrow> json \<Rightarrow> (string \<times> json) list" where
  "dict_set d k v = (if k \<in> fst ` set d then map (\<lambda>(k', v'). if k' = k then (k', v) else (k', v')) d
                     else d @ [(k, v)])"

fun scan_once :: "nat \<Rightarrow> string \<Rightarrow> (json \<times> string) option"
and scan_array :: "nat \<Rightarrow> json list \<Rightarrow> string \<Rightarrow> (json \<times> string) option"
and scan_object :: "nat \<Rightarrow> (string \<times> json) list \<Rightarrow> string \<Rightarrow> (json \<times> string) option" where
  "scan_once 0 s = None"
| "scan_once (Suc n) [] = None"
| "scan_once (Suc n) (c # cs) =
     (if c = CHR 0x22 then map_option (\<lambda>(k, rest). (JStr k, rest)) (scan_string [] cs)
      else if c = CHR ''{'' then
        (case skip_ws cs of
           [] \<Rightarrow> None
         | d # ds \<Rightarrow> if d = CHR ''}'' then Some (JObj [], ds)
                     else if d = CHR 0x22 then scan_object n [] (d # ds) else None)
      else if c = CHR ''['' then
        (case skip_ws cs of
           [] \<Rightarrow> None
         | d # ds \<Rightarrow> if d = CHR '']'' then Some (JArr [], ds) else scan_array n [] (d # ds))
      else if take 4 (c # cs) = ''null'' then Some (JNull, drop 4 (c # cs))
      else if take 4 (c # cs) = ''true'' then Some (JBool True, drop 4 (c # cs))
      else if take 5 (c # cs) = ''false'' then Some (JBool False, drop 5 (c # cs))
      else
        (case scan_number (c # cs) of
           Some r \<Rightarrow> Some r
         | None \<Rightarrow>
             if take 3 (c # cs) = ''NaN'' then Some (JFloat NaN, drop 3 (c # cs))
             else if take 8 (c # cs) = ''Infinity'' then Some (JFloat PInf, drop 8 (c # cs))
             else if take 9 (c # cs) = ''-Infinity'' then Some (JFloat NInf, drop 9 (c # cs))
             else None))"
| "scan_array 0 acc s = None"
| "scan_array (Suc n) acc s =
     (case scan_once n s of
        None \<Rightarrow> None
      | Some (v, rest) \<Rightarrow>
          (case skip_ws rest of
             [] \<Rightarrow> None
           | d # ds \<Rightarrow> if d = CHR '']'' then Some (JArr (acc @ [v]), ds)
                       else if d = CHR '','' then scan_array n (acc @ [v]) (skip_ws ds)
                       else None))"
| "scan_object 0 acc s = None"
| "scan_object (Suc n) acc s =
     (case s of
        [] \<Rightarrow> None
      | q # qs \<Rightarrow>
          if q \<noteq> CHR 0x22 then None
          else
            (case scan_string [] qs of
               None \<Rightarrow> None
             | Some (k, rest) \<Rightarrow>
                 (case skip_ws rest of
                    [] \<Rightarrow> None
                  | d # ds \<Rightarrow>
                      if d \<noteq> CHR '':'' then None
                      else
                        (case scan_once n (skip_ws ds) of
                           None \<Rightarrow> None
                         | Some (v, rest') \<Rightarrow>
                             (case skip_ws rest' of
                                [] \<Rightarrow> None
                              | e # es \<Rightarrow>
                                  if e = CHR ''}'' then Some (JObj (dict_set acc k v), es)
                                  else if e = CHR '','' then scan_object n (dict_set acc k v) (skip_ws es)
                                  else None)))))"

definition json_loads :: "string \<Rightarrow> json option" where
  "json_loads s =
     (case scan_once (Suc (length s)) (skip_ws s) of
        None \<Rightarrow> None
      | Some (v, rest) \<Rightarrow> if skip_ws rest = [] then Some v else None)"

subsection \<open>What the extraction returns\<close>

text \<open>\<open>first_parse loads cs\<close>: the parse of the first text of \<open>cs\<close> that parses.\<close>

fun first_parse :: "(string \<Rightarrow> json option) \<Rightarrow> string list \<Rightarrow> json option" where
  "first_parse loads [] = None"
| "first_parse loads (c # cs) =
     (case loads c of Some parsed \<Rightarrow> Some parsed | None \<Rightarrow> first_parse loads cs)"

lemma first_parse_append:
  "first_parse loads (xs @ ys) =
     (case first_parse loads xs of Some v \<Rightarrow> Some v | None \<Rightarrow> first_parse loads ys)"
  by (induction xs) (auto split: option.splits)

lemma try_matches_first_parse: "try_matches loads ms = first_parse loads (map strip ms)"
  by (induction ms) (auto split: option.splits)

lemma try_patterns_first_parse:
  "try_patterns loads ps response =
     first_parse loads (map strip (concat (map (\<lambda>p. p response) ps)))"
  by (induction ps)
     (auto simp: try_matches_first_parse first_parse_append split: option.splits)

lemma extract_json_first_parse:
  "extract_json_from_response loads response =
     (case first_parse loads (candidates response) of
        Some parsed \<Rightarrow> parsed
      | None \<Rightarrow> parse_failure response)"
  by (simp add: extract_json_from_response_def candidates_def try_patterns_first_parse
        first_parse_append split: option.splits)

lemma first_parse_None: "\<forall>c \<in> set cs. loads c = None \<Longrightarrow> first_parse loads cs = None"
  by (induction cs) auto

lemma first_parse_first:
  "\<forall>x \<in> set pre. loads x = None \<Longrightarrow> loads c = Some v \<Longrightarrow>
     first_parse loads (pre @ c # post) = Some v"
  by (induction pre) auto

text \<open>
  Claim C5, as the code has it. For every text and every outcome of \<^verbatim>\<open>json.loads\<close>:
  when none of the texts the extraction tries parses, the result is the object whose
  \<^verbatim>\<open>error\<close> field is the string "Failed to parse LLM response" and whose
  \<^verbatim>\<open>raw_response\<close> field is the first 500 characters of the text, fewer when the
  text is shorter.
\<close>

theorem extract_json_parse_failure:
  assumes "\<forall>c \<in> set (candidates response). loads c = None"
  shows "extract_json_from_response loads response =
           JObj [(''error'', JStr ''Failed to parse LLM response''),
                 (''raw_response'', JStr (take 500 response))]
         \<and> length (take 500 response) \<le> 500"
  using assms by (simp add: extract_json_first_parse first_parse_None parse_failure_def)

lemma candidates_no_json: "candidates ''no json here'' = [''no json here'']"
  by code_simp

lemma loads_no_json: "json_loads ''no json here'' = None"
  by code_simp

theorem extract_json_parse_failure_witness:
  "extract_json_from_response json_loads ''no json here'' =
     JObj [(''error'', JStr ''Failed to parse LLM response''),
           (''raw_response'', JStr ''no json here'')]"
  using extract_json_parse_failure [of "''no json here''" json_loads]
  by (simp add: candidates_no_json loads_no_json)

text \<open>
  Claim C5 as stated names the \<^verbatim>\<open>error\<close> field "parse_failed". On the text
  "no json here" no pattern matches, the whole text does not parse, and the result is
  not the object with that field.
\<close>

theorem extract_json_error_field_counterexample:
  "candidates ''no json here'' = [''no json here'']
   \<and> json_loads ''no json here'' = None
   \<and> extract_json_from_response json_loads ''no json here'' \<noteq>
       JObj [(''error'', JStr ''parse_failed''), (''raw_response'', JStr ''no json here'')]"
  by code_simp

text \<open>
  Claim C4, as the code has it. The extraction returns the parse of the first text
  that parses among, in this order: the groups of the fenced blocks tagged
  \<^verbatim>\<open>json\<close>, the groups of all fenced blocks, the span from the first \<^verbatim>\<open>{\<close> to the
  last \<^verbatim>\<open>}\<close>, the span from the first \<^verbatim>\<open>[\<close> to the last \<^verbatim>\<open>]\<close>, each trimmed,
  and the whole trimmed text.
\<close>

theorem extract_json_first_candidate:
  assumes "candidates response = pre @ c # post"
    and "\<forall>x \<in> set pre. loads x = None"
    and "loads c = Some v"
  shows "extract_json_from_response loads response = v"
  using assms by (simp add: extract_json_first_parse first_parse_first)

lemma candidates_extra_broken:
  "candidates ''{\"a\":1} extra {broken'' = [''{\"a\":1}'', ''{\"a\":1} extra {broken'']"
  by code_simp

lemma loads_a1: "json_loads ''{\"a\":1}'' = Some (JObj [(''a'', JInt 1)])"
  by code_simp

theorem extract_json_first_candidate_witness:
  "extract_json_from_response json_loads ''{\"a\":1} extra {broken'' = JObj [(''a'', JInt 1)]"
  using extract_json_first_candidate
    [of "''{\"a\":1} extra {broken''" "[]" "''{\"a\":1}''" "[''{\"a\":1} extra {broken'']"
        json_loads "JObj [(''a'', JInt 1)]"]
  by (simp add: candidates_extra_broken loads_a1)

text \<open>
  Claim C4 as stated promises a parsed value for every text that holds a valid JSON
  document. The text below holds the document \<^verbatim>\<open>{"a":1}\<close>; the only span the
  third pattern offers runs from the first \<^verbatim>\<open>{\<close> to the last \<^verbatim>\<open>}\<close>, it does not
  parse, and the result is the failure object.
\<close>

theorem extract_json_greedy_span_counterexample:
  "json_loads ''{\"a\":1}'' = Some (JObj [(''a'', JInt 1)])
   \<and> extract_json_from_response json_loads ''{\"a\":1} and {\"b\":2}'' =
       JObj [(''error'', JStr ''Failed to parse LLM response''),
             (''raw_response'', JStr ''{\"a\":1} and {\"b\":2}'')]"
  by code_simp

lemma extract_json_fenced_example:
  "extract_json_from_response json_loads ''prefix ```json\<newline>{\"a\":1}\<newline>``` suffix'' = JObj [(''a'', JInt 1)]"
  by code_simp

section \<open>The analysis backends\<close>

text \<open>
  The handlers of \<^verbatim>\<open>POST /analyze\<close> of the four backends that ask the LLM, from
  the LLM call on: \<^verbatim>\<open>analyze_code\<close> in \<^verbatim>\<open>code_quality_mcp/main.py\<close> (lines
  150-210), \<^verbatim>\<open>analyze_architecture\<close> in \<^verbatim>\<open>architect_mcp/main.py\<close>,
  \<^verbatim>\<open>analyze_event_loop\<close> in \<^verbatim>\<open>event_loop_mcp/main.py\<close> (lines 171-245) and
  \<^verbatim>\<open>analyze_cost\<close> in \<^verbatim>\<open>cost_mcp/main.py\<close> (lines 188-270). The fifth backend,
  \<^verbatim>\<open>lighthouse_mcp\<close>, runs an audit of a URL and asks no LLM.
\<close>

subsection \<open>The operator \<^verbatim>\<open>in\<close>\<close>

fun contains_sub :: "string \<Rightarrow> string \<Rightarrow> bool" where
  "contains_sub key [] = (key = [])"
| "contains_sub key (c # cs) = (take (length key) (c # cs) = key \<or> contains_sub key cs)"

text \<open>
  \<^verbatim>\<open>key in v\<close> for a string \<open>key\<close>: a key of a dict, an element of a list, a
  substring of a string; any other value is not iterable.
\<close>

fun py_in :: "string \<Rightarrow> json \<Rightarrow> py_error + bool" where
  "py_in key (JObj d) = Inr (key \<in> fst ` set d)"
| "py_in key (JArr xs) = Inr (JStr key \<in> set xs)"
| "py_in key (JStr s) = Inr (contains_sub key s)"
| "py_in key v = Inl TypeError"

text \<open>
  The test \<^verbatim>\<open>"error" in parsed and "raw_response" in parsed\<close>; the second operand
  is evaluated only when the first is true.
\<close>

definition is_parse_failure :: "json \<Rightarrow> py_error + bool" where
  "is_parse_failure parsed =
     (case py_in ''error'' parsed of
        Inl e \<Rightarrow> Inl e
      | Inr False \<Rightarrow> Inr False
      | Inr True \<Rightarrow> py_in ''raw_response'' parsed)"

subsection \<open>Code quality\<close>

record code_issue =
  issue_type :: string
  issue_severity :: string
  issue_line :: "int option"
  issue_message :: string
  issue_suggestion :: "string option"

record code_quality_response =
  cq_score :: int
  cq_issues :: "code_issue list"
  cq_summary :: string
  cq_analyzed_at :: string
  cq_model_used :: string

text \<open>
  \<open>generated\<close> is the outcome of \<^verbatim>\<open>ollama_client.generate\<close>, an exception or the
  text of the LLM; \<open>model\<close> is \<^verbatim>\<open>ollama_client.model\<close> and \<open>now\<close> the time stamp that
  the field \<^verbatim>\<open>analyzed_at\<close> takes by default. The construction of the response from
  the parsed JSON (lines 187-203: the loop over \<^verbatim>\<open>issues\<close>, the clamped score and
  the validation of the fields by pydantic) is the parameter \<open>build\<close>. Every exception
  is caught and raised again as \<^verbatim>\<open>HTTPException\<close> with status 500: the result
  \<open>Inl e\<close> is that response, \<open>e\<close> the exception caught.
\<close>

definition code_quality_analyze_code ::
  "(string \<Rightarrow> json option) \<Rightarrow> (json \<Rightarrow> py_error + code_quality_response) \<Rightarrow> string \<Rightarrow> string
     \<Rightarrow> py_error + string \<Rightarrow> py_error + code_quality_response" where
  "code_quality_analyze_code loads build model now generated =
     (case generated of
        Inl e \<Rightarrow> Inl e
      | Inr raw_response \<Rightarrow>
          (let parsed = extract_json_from_response loads raw_response
           in case is_parse_failure parsed of
                Inl e \<Rightarrow> Inl e
              | Inr True \<Rightarrow>
                  Inr \<lparr> cq_score = 50,
                        cq_issues = [\<lparr> issue_type = ''analysis_error'',
                                       issue_severity = ''medium'',
                                       issue_line = None,
                                       issue_message =
                                         ''Could not fully analyze code - LLM response parsing failed'',
                                       issue_suggestion =
                                         Some ''Try again or manually review the code'' \<rparr>],
                        cq_summary = ''Analysis incomplete due to parsing error'',
                        cq_analyzed_at = now,
                        cq_model_used = model \<rparr>
              | Inr False \<Rightarrow> build parsed))"

subsection \<open>Architecture\<close>

record dependency_issue =
  dep_type :: string
  dep_severity :: string
  dep_source :: string
  dep_target :: "string option"
  dep_message :: string
  dep_suggestion :: "string option"

record layer_info =
  layer_name :: string
  layer_imports :: "string list"

record architecture_analysis_response =
  architecture_score :: int
  detected_layers :: "layer_info list"
  dependency_issues :: "dependency_issue list"
  circular_dependencies :: "string list"
  layer_violations :: "string list"
  arch_summary :: string
  recommendations :: "string list"
  arch_analyzed_at :: string
  arch_model_used :: string

definition analyze_architecture ::
  "(string \<Rightarrow> json option) \<Rightarrow> (json \<Rightarrow> py_error + architecture_analysis_response) \<Rightarrow> string
     \<Rightarrow> string \<Rightarrow> py_error + string \<Rightarrow> py_error + architecture_analysis_response" where
  "analyze_architecture loads build model now generated =
     (case generated of
        Inl e \<Rightarrow> Inl e
      | Inr raw_response \<Rightarrow>
          (let parsed = extract_json_from_response loads raw_response
           in case is_parse_failure parsed of
                Inl e \<Rightarrow> Inl e
              | Inr True \<Rightarrow>
                  Inr \<lparr> architecture_score = 50,
                        detected_layers = [],
                        dependency_issues =
                          [\<lparr> dep_type = ''analysis_error'',
                              dep_severity = ''medium'',
                              dep_source = ''unknown'',
                              dep_target = None,
                              dep_message =
                                ''Could not fully analyze architecture - LLM response parsing failed'',
                              dep_suggestion = Some ''Try again or manually review'' \<rparr>],
                        circular_dependencies = [],
                        layer_violations = [],
                        arch_summary = ''Analysis incomplete due to parsing error'',
                        recommendations = [],
                        arch_analyzed_at = now,
                        arch_model_used = model \<rparr>
              | Inr False \<Rightarrow> build parsed))"

subsection \<open>Event loop\<close>

record blocking_operation =
  op_type :: string
  op_severity :: string
  op_line :: "int option"
  op_operation :: string
  blocking_time_estimate :: "string option"
  op_message :: string
  async_alternative :: "string option"

record event_loop_analysis_response =
  event_loop_score :: int
  blocking_operations :: "blocking_operation list"
  total_blocking_calls :: int
  estimated_freeze_risk :: string
  async_patterns_used :: "string list"
  el_summary :: string
  el_recommendations :: "string list"
  el_analyzed_at :: string
  el_model_used :: string

text \<open>
  Lines 192-214 of \<^verbatim>\<open>event_loop_mcp/main.py\<close>. The fields that the call of
  \<^verbatim>\<open>BlockingOperation\<close> and of \<^verbatim>\<open>EventLoopAnalysisResponse\<close> leaves out take the
  defaults of the classes: \<^verbatim>\<open>None\<close>, the empty list, the time stamp.
\<close>

definition analyze_event_loop ::
  "(string \<Rightarrow> json option) \<Rightarrow> (json \<Rightarrow> py_error + event_loop_analysis_response) \<Rightarrow> string
     \<Rightarrow> string \<Rightarrow> py_error + string \<Rightarrow> py_error + event_loop_analysis_response" where
  "analyze_event_loop loads build model now generated =
     (case generated of
        Inl e \<Rightarrow> Inl e
      | Inr raw_response \<Rightarrow>
          (let parsed = extract_json_from_response loads raw_response
           in case is_parse_failure parsed of
                Inl e \<Rightarrow> Inl e
              | Inr True \<Rightarrow>
                  Inr \<lparr> event_loop_score = 50,
                        blocking_operations =
                          [\<lparr> op_type = ''analysis_error'',
                              op_severity = ''medium'',
                              op_line = None,
                              op_operation = ''unknown'',
                              blocking_time_estimate = None,
                              op_message =
                                ''Could not fully analyze - LLM response parsing failed'',
                              async_alternative = Some ''Try again or manually review'' \<rparr>],
                        total_blocking_calls = 0,
                        estimated_freeze_risk = ''unknown'',
                        async_patterns_used = [],
                        el_summary = ''Analysis incomplete due to parsing error'',
                        el_recommendations = [],
                        el_analyzed_at = now,
                        el_model_used = model \<rparr>
              | Inr False \<Rightarrow> build parsed))"

subsection \<open>Cost\<close>

record complexity_analysis =
  function_name :: string
  time_complexity :: string
  space_complexity :: string
  explanation :: string
  hotspot :: bool

record cost_factor =
  factor_category :: string
  factor_impact :: string
  factor_description :: string
  factor_optimization :: "string option"

record cost_analysis_response =
  efficiency_score :: int
  overall_time_complexity :: string
  overall_space_complexity :: string
  complexity_breakdown :: "complexity_analysis list"
  cloud_cost_impact :: string
  cost_factors :: "cost_factor list"
  estimated_monthly_impact :: "string option"
  scalability_assessment :: string
  cost_summary :: string
  optimizations :: "string list"
  cost_analyzed_at :: string
  cost_model_used :: string

text \<open>
  Lines 211-228 of \<^verbatim>\<open>cost_mcp/main.py\<close>. The call of \<^verbatim>\<open>CostAnalysisResponse\<close> in
  the branch names seven fields; \<^verbatim>\<open>complexity_breakdown\<close>, \<^verbatim>\<open>cost_factors\<close> and
  \<^verbatim>\<open>optimizations\<close> take their default, the empty list, and
  \<^verbatim>\<open>estimated_monthly_impact\<close> is \<^verbatim>\<open>None\<close>: this response lists no entry of any
  type.
\<close>

definition analyze_cost ::
  "(string \<Rightarrow> json option) \<Rightarrow> (json \<Rightarrow> py_error + cost_analysis_response) \<Rightarrow> string
     \<Rightarrow> string \<Rightarrow> py_error + string \<Rightarrow> py_error + cost_analysis_response" where
  "analyze_cost loads build model now generated =
     (case generated of
        Inl e \<Rightarrow> Inl e
      | Inr raw_response \<Rightarrow>
          (let parsed = extract_json_from_response loads raw_response
           in case is_parse_failure parsed of
                Inl e \<Rightarrow> Inl e
              | Inr True \<Rightarrow>
                  Inr \<lparr> efficiency_score = 50,
                        overall_time_complexity = ''O(?)'',
                        overall_space_complexity = ''O(?)'',
                        complexity_breakdown = [],
                        cloud_cost_impact = ''Unknown'',
                        cost_factors = [],
                        estimated_monthly_impact = None,
                        scalability_assessment = ''Unable to assess'',
                        cost_summary = ''Analysis incomplete due to parsing error'',
                        optimizations = [],
                        cost_analyzed_at = now,
                        cost_model_used = model \<rparr>
              | Inr False \<Rightarrow> build parsed))"

subsection \<open>The response to a parse failure\<close>

lemma is_parse_failure_both_keys:
  "''error'' \<in> fst ` set d \<Longrightarrow> ''raw_response'' \<in> fst ` set d \<Longrightarrow> is_parse_failure (JObj d) = Inr True"
  by (simp add: is_parse_failure_def)

text \<open>
  Claim C10, as the code has it. When the text of the LLM parses to an object with
  the keys \<^verbatim>\<open>error\<close> and \<^verbatim>\<open>raw_response\<close>, whatever their values and the other
  keys, each of the four handlers returns its fixed response, with score 50 and the
  summary "Analysis incomplete due to parsing error", and the parsed content is not
  used. The responses of the code quality, architecture and event loop handlers list
  one entry of type \<^verbatim>\<open>analysis_error\<close> and severity \<^verbatim>\<open>medium\<close>; the response of
  the cost handler lists no entry.
\<close>

theorem degraded_responses_on_both_keys:
  assumes "extract_json_from_response loads raw = JObj d"
    and "''error'' \<in> fst ` set d"
    and "''raw_response'' \<in> fst ` set d"
  shows "code_quality_analyze_code loads build_cq model now (Inr raw) =
           Inr \<lparr> cq_score = 50,
                 cq_issues = [\<lparr> issue_type = ''analysis_error'',
                                issue_severity = ''medium'',
                                issue_line = None,
                                issue_message =
                                  ''Could not fully analyze code - LLM response parsing failed'',
                                issue_suggestion = Some ''Try again or manually review the code'' \<rparr>],
                 cq_summary = ''Analysis incomplete due to parsing error'',
                 cq_analyzed_at = now,
                 cq_model_used = model \<rparr>
         \<and> analyze_architecture loads build_arch model now (Inr raw) =
           Inr \<lparr> architecture_score = 50,
                 detected_layers = [],
                 dependency_issues =
                   [\<lparr> dep_type = ''analysis_error'',
                       dep_severity = ''medium'',
                       dep_source = ''unknown'',
                       dep_target = None,
                       dep_message =
                         ''Could not fully analyze architecture - LLM response parsing failed'',
                       dep_suggestion = Some ''Try again or manually review'' \<rparr>],
                 circular_dependencies = [],
                 layer_violations = [],
                 arch_summary = ''Analysis incomplete due to parsing error'',
                 recommendations = [],
                 arch_analyzed_at = now,
                 arch_model_used = model \<rparr>
         \<and> analyze_event_loop loads build_el model now (Inr raw) =
           Inr \<lparr> event_loop_score = 50,
                 blocking_operations =
                   [\<lparr> op_type = ''analysis_error'',
                       op_severity = ''medium'',
                       op_line = None,
                       op_operation = ''unknown'',
                       blocking_time_estimate = None,
                       op_message = ''Could not fully analyze - LLM response parsing failed'',
                       async_alternative = Some ''Try again or manually review'' \<rparr>],
                 total_blocking_calls = 0,
                 estimated_freeze_risk = ''unknown'',
                 async_patterns_used = [],
                 el_summary = ''Analysis incomplete due to parsing error'',
                 el_recommendations = [],
                 el_analyzed_at = now,
                 el_model_used = model \<rparr>
         \<and> analyze_cost loads build_cost model now (Inr raw) =
           Inr \<lparr> efficiency_score = 50,
                 overall_time_complexity = ''O(?)'',
                 overall_space_complexity = ''O(?)'',
                 complexity_breakdown = [],
                 cloud_cost_impact = ''Unknown'',
                 cost_factors = [],
                 estimated_monthly_impact = None,
                 scalability_assessment = ''Unable to assess'',
                 cost_summary = ''Analysis incomplete due to parsing error'',
                 optimizations = [],
                 cost_analyzed_at = now,
                 cost_model_used = model \<rparr>"
  using assms
  by (simp add: code_quality_analyze_code_def analyze_architecture_def
        analyze_event_loop_def analyze_cost_def is_parse_failure_both_keys)

lemma extract_analysis_with_both_keys:
  "extract_json_from_response json_loads
     ''{\"score\": 97, \"summary\": \"clean\", \"error\": \"\", \"raw_response\": \"\"}'' =
   JObj [(''score'', JInt 97), (''summary'', JStr ''clean''), (''error'', JStr []),
         (''raw_response'', JStr [])]"
  by code_simp

text \<open>
  An analysis with score 97 that carries both keys: every handler answers with its
  fixed response, whatever the construction of the normal response would give.
\<close>

theorem degraded_responses_on_both_keys_witness:
  "code_quality_analyze_code json_loads
     (\<lambda>parsed. Inr \<lparr> cq_score = 97, cq_issues = [], cq_summary = ''clean'',
                       cq_analyzed_at = ''t'', cq_model_used = ''llama3'' \<rparr>)
     ''llama3'' ''t''
     (Inr ''{\"score\": 97, \"summary\": \"clean\", \"error\": \"\", \"raw_response\": \"\"}'') =
   Inr \<lparr> cq_score = 50,
         cq_issues = [\<lparr> issue_type = ''analysis_error'',
                        issue_severity = ''medium'',
                        issue_line = None,
                        issue_message =
                          ''Could not fully analyze code - LLM response parsing failed'',
                        issue_suggestion = Some ''Try again or manually review the code'' \<rparr>],
         cq_summary = ''Analysis incomplete due to parsing error'',
         cq_analyzed_at = ''t'',
         cq_model_used = ''llama3'' \<rparr>
   \<and> analyze_architecture json_loads (\<lambda>parsed. Inl ValidationError) ''llama3'' ''t''
     (Inr ''{\"score\": 97, \"summary\": \"clean\", \"error\": \"\", \"raw_response\": \"\"}'') =
   Inr \<lparr> architecture_score = 50,
         detected_layers = [],
         dependency_issues =
           [\<lparr> dep_type = ''analysis_error'',
               dep_severity = ''medium'',
               dep_source = ''unknown'',
               dep_target = None,
               dep_message =
                 ''Could not fully analyze architecture - LLM response parsing failed'',
               dep_suggestion = Some ''Try again or manually review'' \<rparr>],
         circular_dependencies = [],
         layer_violations = [],
         arch_summary = ''Analysis incomplete due to parsing error'',
         recommendations = [],
         arch_analyzed_at = ''t'',
         arch_model_used = ''llama3'' \<rparr>
   \<and> analyze_event_loop json_loads (\<lambda>parsed. Inl ValidationError) ''llama3'' ''t''
     (Inr ''{\"score\": 97, \"summary\": \"clean\", \"error\": \"\", \"raw_response\": \"\"}'') =
   Inr \<lparr> event_loop_score = 50,
         blocking_operations =
           [\<lparr> op_type = ''analysis_error'',
               op_severity = ''medium'',
               op_line = None,
               op_operation = ''unknown'',
               blocking_time_estimate = None,
               op_message = ''Could not fully analyze - LLM response parsing failed'',
               async_alternative = Some ''Try again or manually review'' \<rparr>],
         total_blocking_calls = 0,
         estimated_freeze_risk = ''unknown'',
         async_patterns_used = [],
         el_summary = ''Analysis incomplete due to parsing error'',
         el_recommendations = [],
         el_analyzed_at = ''t'',
         el_model_used = ''llama3'' \<rparr>
   \<and> analyze_cost json_loads (\<lambda>parsed. Inl ValidationError) ''llama3'' ''t''
     (Inr ''{\"score\": 97, \"summary\": \"clean\", \"error\": \"\", \"raw_response\": \"\"}'') =
   Inr \<lparr> efficiency_score = 50,
         overall_time_complexity = ''O(?)'',
         overall_space_complexity = ''O(?)'',
         complexity_breakdown = [],
         cloud_cost_impact = ''Unknown'',
         cost_factors = [],
         estimated_monthly_impact = None,
         scalability_assessment = ''Unable to assess'',
         cost_summary = ''Analysis incomplete due to parsing error'',
         optimizations = [],
         cost_analyzed_at = ''t'',
         cost_model_used = ''llama3'' \<rparr>"
  using degraded_responses_on_both_keys [OF extract_analysis_with_both_keys]
  by simp

lemma extract_cost_with_both_keys:
  "extract_json_from_response json_loads
     ''{\"efficiency_score\": 97, \"error\": \"\", \"raw_response\": \"\"}'' =
   JObj [(''efficiency_score'', JInt 97), (''error'', JStr []), (''raw_response'', JStr [])]"
  by code_simp

text \<open>
  Claim C10 as stated gives the response of every backend a single
  \<^verbatim>\<open>analysis_error\<close> issue of severity \<^verbatim>\<open>medium\<close>. The text below parses to an
  object with both keys; the cost handler takes its branch and returns a response
  whose lists \<^verbatim>\<open>complexity_breakdown\<close>, \<^verbatim>\<open>cost_factors\<close> and \<^verbatim>\<open>optimizations\<close> are
  empty, so that it holds no such issue.
\<close>

theorem analyze_cost_no_issue_counterexample:
  "is_parse_failure
     (extract_json_from_response json_loads
        ''{\"efficiency_score\": 97, \"error\": \"\", \"raw_response\": \"\"}'') = Inr True
   \<and> analyze_cost json_loads (\<lambda>parsed. Inl ValidationError) ''llama3'' ''t''
       (Inr ''{\"efficiency_score\": 97, \"error\": \"\", \"raw_response\": \"\"}'') =
     Inr \<lparr> efficiency_score = 50,
           overall_time_complexity = ''O(?)'',
           overall_space_complexity = ''O(?)'',
           complexity_breakdown = [],
           cloud_cost_impact = ''Unknown'',
           cost_factors = [],
           estimated_monthly_impact = None,
           scalability_assessment = ''Unable to assess'',
           cost_summary = ''Analysis incomplete due to parsing error'',
           optimizations = [],
           cost_analyzed_at = ''t'',
           cost_model_used = ''llama3'' \<rparr>"
  by (simp add: analyze_cost_def extract_cost_with_both_keys is_parse_failure_def)

section \<open>The leveling function\<close>

text \<open>
  \<^verbatim>\<open>calculate_level\<close> of \<^verbatim>\<open>backend/main.py\<close> (lines 235-247).
\<close>

text \<open>
  \<^verbatim>\<open>int(n * 1.5)\<close> for an \<^verbatim>\<open>int\<close> \<open>n\<close>. The interpreter converts \<open>n\<close> to a float
  (\<^verbatim>\<open>OverflowError\<close> when it is too large), multiplies, and converts the product
  back (\<^verbatim>\<open>OverflowError\<close> when the product is infinite).
\<close>

definition int_mul_1_5 :: "int \<Rightarrow> py_error + int" where
  "int_mul_1_5 n =
     (let x = b64 (of_int n)
      in if 2 powi 1024 \<le> \<bar>x\<bar> then Inl OverflowError
         else let z = b64 (x * (3 / 2))
              in if 2 powi 1024 \<le> \<bar>z\<bar> then Inl OverflowError else Inr (py_trunc z))"

text \<open>
  The \<^verbatim>\<open>while\<close> loop, on the variables \<^verbatim>\<open>level\<close>, \<^verbatim>\<open>xp_for_next\<close> and
  \<^verbatim>\<open>remaining_xp\<close>. \<open>None\<close> stands for a loop that does not end, \<open>Some (Inl e)\<close>
  for the exception \<open>e\<close>.
\<close>

partial_function (option) level_loop :: "int \<Rightarrow> int \<Rightarrow> int \<Rightarrow> (py_error + int) option" where
  "level_loop level xp_for_next remaining_xp =
     (if xp_for_next \<le> remaining_xp
      then (case int_mul_1_5 xp_for_next of
              Inl e \<Rightarrow> Some (Inl e)
            | Inr t \<Rightarrow> level_loop (level + 1) t (remaining_xp - xp_for_next))
      else Some (Inr level))"

declare level_loop.simps [code]

definition calculate_level :: "int \<Rightarrow> (py_error + int) option" where
  "calculate_level xp = level_loop 1 100 xp"

text \<open>
  The leveling function as the specification words it: start at level 1 with
  threshold 100; while the remaining xp is at least the threshold, subtract the
  threshold, increment the level and set the threshold to \<open>\<lfloor>threshold * 1.5\<rfloor>\<close>.
  Thresholds are positive.
\<close>

function level_reference_loop :: "int \<Rightarrow> int \<Rightarrow> int \<Rightarrow> int" where
  "level_reference_loop level threshold remaining =
     (if 0 < threshold \<and> threshold \<le> remaining
      then level_reference_loop (level + 1) (3 * threshold div 2) (remaining - threshold)
      else level)"
  by pat_completeness auto
termination
  by (relation "measure (\<lambda>(level, threshold, remaining). nat remaining)") auto

definition level_reference :: "int \<Rightarrow> int" where
  "level_reference xp = level_reference_loop 1 100 xp"

subsection \<open>The loop ends\<close>

lemma int_mul_1_5_exact:
  assumes "0 < t" and "t < 2 ^ 51"
  shows "int_mul_1_5 t = Inr (3 * t div 2)"
proof -
  have "b64 (of_int (2 * t) / 2) = of_int (2 * t) / 2"
    using assms by (intro b64_half_int) auto
  then have x: "b64 (of_int t) = of_int t" by simp
  have "b64 (of_int (3 * t) / 2) = of_int (3 * t) / 2"
    using assms by (intro b64_half_int) auto
  then have z: "b64 (of_int t * (3 / 2)) = of_int (3 * t) / 2" by (simp add: algebra_simps)
  have "(of_int t :: rat) < of_int (2 ^ 51)" using assms(2) by (simp only: of_int_less_iff)
  then have t51: "(of_int t :: rat) < 2 ^ 51" by simp
  have small: "(2::rat) ^ 51 \<le> 2 ^ 1024 / 2" by simp
  have fx: "\<not> 2 powi 1024 \<le> \<bar>(of_int t :: rat)\<bar>"
    using assms(1) t51 small by simp
  have fz: "\<not> 2 powi 1024 \<le> \<bar>(of_int (3 * t) / 2 :: rat)\<bar>"
    using assms(1) t51 small by simp
  have pt: "py_trunc (of_int (3 * t) / 2) = 3 * t div 2"
    using assms(1) by (simp add: py_trunc_def floor_divide_of_int_eq [of "3 * t" 2, simplified])
  show ?thesis
    by (simp only: int_mul_1_5_def Let_def x z fx fz if_False pt)
qed

lemma int_mul_1_5_pos:
  assumes "1 \<le> t" and "int_mul_1_5 t = Inr t'"
  shows "1 \<le> t'"
proof -
  have x: "1 \<le> b64 (of_int t)" using assms(1) by (intro b64_ge_one) simp
  then have "1 \<le> b64 (of_int t) * (3 / 2)" by simp
  then have z: "1 \<le> b64 (b64 (of_int t) * (3 / 2))" by (rule b64_ge_one)
  then have "1 \<le> py_trunc (b64 (b64 (of_int t) * (3 / 2)))"
    by (simp add: py_trunc_def le_floor_iff)
  then show ?thesis
    using assms(2) by (auto simp: int_mul_1_5_def Let_def split: if_splits)
qed

lemma level_loop_stop: "remaining_xp < xp_for_next \<Longrightarrow> level_loop level xp_for_next remaining_xp = Some (Inr level)"
  by (subst level_loop.simps) simp

lemma level_loop_step:
  "xp_for_next \<le> remaining_xp \<Longrightarrow>
     level_loop level xp_for_next remaining_xp =
       (case int_mul_1_5 xp_for_next of
          Inl e \<Rightarrow> Some (Inl e)
        | Inr t \<Rightarrow> level_loop (level + 1) t (remaining_xp - xp_for_next))"
  by (subst level_loop.simps) simp

lemma level_loop_total_aux:
  "1 \<le> t \<Longrightarrow> nat r \<le> n \<Longrightarrow> \<exists>y. level_loop l t r = Some y"
proof (induction n arbitrary: l t r)
  case 0
  then have "r < t" by simp
  then show ?case by (simp add: level_loop_stop)
next
  case (Suc n)
  show ?case
  proof (cases "t \<le> r")
    case False
    then show ?thesis by (simp add: level_loop_stop)
  next
    case True
    show ?thesis
    proof (cases "int_mul_1_5 t")
      case (Inl e)
      then show ?thesis using True by (simp add: level_loop_step)
    next
      case (Inr t')
      have "1 \<le> t'" using Suc.prems(1) Inr by (rule int_mul_1_5_pos)
      moreover have "nat (r - t) \<le> n" using Suc.prems True by simp
      ultimately have "\<exists>y. level_loop (l + 1) t' (r - t) = Some y" by (rule Suc.IH)
      then show ?thesis using True Inr by (simp add: level_loop_step)
    qed
  qed
qed

lemma calculate_level_total: "\<exists>y. calculate_level xp = Some y"
  unfolding calculate_level_def by (rule level_loop_total_aux [of 100 xp "nat xp"]) auto

subsection \<open>Agreement with the reference\<close>

lemma level_loop_reference:
  "1 \<le> t \<Longrightarrow> r < 2 ^ 51 \<Longrightarrow> level_loop l t r = Some (Inr (level_reference_loop l t r))"
proof (induction l t r rule: level_reference_loop.induct)
  case (1 level threshold remaining)
  show ?case
  proof (cases "threshold \<le> remaining")
    case False
    then show ?thesis by (simp add: level_loop_stop)
  next
    case True
    have ex: "int_mul_1_5 threshold = Inr (3 * threshold div 2)"
      using "1.prems" True by (intro int_mul_1_5_exact) auto
    have "1 \<le> 3 * threshold div 2" using "1.prems"(1) by simp
    moreover have "remaining - threshold < 2 ^ 51" using "1.prems" by simp
    ultimately have "level_loop (level + 1) (3 * threshold div 2) (remaining - threshold) =
        Some (Inr (level_reference_loop (level + 1) (3 * threshold div 2) (remaining - threshold)))"
      using "1.prems"(1) True by (intro "1.IH") auto
    then show ?thesis
      using True "1.prems"(1) ex
      by (subst level_reference_loop.simps) (simp add: level_loop_step)
  qed
qed

subsection \<open>Monotonicity\<close>

lemma level_loop_ge:
  "1 \<le> t \<Longrightarrow> nat r \<le> n \<Longrightarrow> level_loop l t r = Some (Inr y) \<Longrightarrow> l \<le> y"
proof (induction n arbitrary: l t r)
  case 0
  then have "r < t" by simp
  then show ?case using "0.prems"(3) by (simp add: level_loop_stop)
next
  case (Suc n)
  show ?case
  proof (cases "t \<le> r")
    case False
    then show ?thesis using Suc.prems(3) by (simp add: level_loop_stop)
  next
    case True
    then obtain t' where t': "int_mul_1_5 t = Inr t'"
      and rec: "level_loop (l + 1) t' (r - t) = Some (Inr y)"
      using Suc.prems(3) by (auto simp: level_loop_step split: sum.splits)
    have "1 \<le> t'" using Suc.prems(1) t' by (rule int_mul_1_5_pos)
    moreover have "nat (r - t) \<le> n" using Suc.prems True by simp
    ultimately have "l + 1 \<le> y" using rec by (rule Suc.IH)
    then show ?thesis by simp
  qed
qed

lemma level_loop_mono:
  "1 \<le> t \<Longrightarrow> nat b \<le> n \<Longrightarrow> a \<le> b \<Longrightarrow> level_loop l t b = Some (Inr lb) \<Longrightarrow>
     \<exists>la. level_loop l t a = Some (Inr la) \<and> la \<le> lb"
proof (induction n arbitrary: l t a b)
  case 0
  then have "b < t" "a < t" by simp_all
  then show ?case using "0.prems"(4) by (simp add: level_loop_stop)
next
  case (Suc n)
  show ?case
  proof (cases "t \<le> b")
    case False
    then have "b < t" "a < t" using Suc.prems(3) by simp_all
    then show ?thesis using Suc.prems(4) by (simp add: level_loop_stop)
  next
    case True
    then obtain t' where t': "int_mul_1_5 t = Inr t'"
      and rec: "level_loop (l + 1) t' (b - t) = Some (Inr lb)"
      using Suc.prems(4) by (auto simp: level_loop_step split: sum.splits)
    have pos: "1 \<le> t'" using Suc.prems(1) t' by (rule int_mul_1_5_pos)
    have n: "nat (b - t) \<le> n" using Suc.prems True by simp
    show ?thesis
    proof (cases "t \<le> a")
      case False
      have "l + 1 \<le> lb" using pos n rec by (rule level_loop_ge)
      then show ?thesis using False by (simp add: level_loop_stop)
    next
      case a: True
      have "a - t \<le> b - t" using Suc.prems(3) by simp
      with pos n have "\<exists>la. level_loop (l + 1) t' (a - t) = Some (Inr la) \<and> la \<le> lb"
        using rec by (rule Suc.IH)
      then show ?thesis using a t' by (simp add: level_loop_step)
    qed
  qed
qed

subsection \<open>The thresholds beyond \<open>2 ^ 51\<close>\<close>

lemma int_mul_1_5_eval:
  assumes "b64 (of_int n) = x" and "b64 (x * (3 / 2)) = z"
    and "\<bar>x\<bar> < 2 ^ 1024" and "\<bar>z\<bar> < 2 ^ 1024"
  shows "int_mul_1_5 n = Inr (py_trunc z)"
  using assms by (simp add: int_mul_1_5_def Let_def)

lemma b79: "b64 (of_int 8116716042127107) = 8116716042127107"
  using b64_frac [of 8116716042127107 1 1 1 52]
  by (simp add: round_half_even_numeral round_half_even_numeral_int)

lemma z79: "b64 (8116716042127107 * (3 / 2)) = 12175074063190660"
  using b64_frac [of 24350148126381321 2 2 1 53]
  by (simp add: round_half_even_numeral round_half_even_numeral_int)

lemma big79: "int_mul_1_5 8116716042127107 = Inr 12175074063190660"
  using int_mul_1_5_eval [OF b79 z79] by (simp add: py_trunc_def floor_numeral_div)

lemma b80: "b64 (of_int 12175074063190660) = 12175074063190660"
  using b64_frac [of 12175074063190660 1 2 1 53]
  by (simp add: round_half_even_numeral round_half_even_numeral_int)

lemma z80: "b64 (12175074063190660 * (3 / 2)) = 18262611094785992"
  using b64_frac [of 18262611094785990 1 4 1 54]
  by (simp add: round_half_even_numeral round_half_even_numeral_int)

lemma big80: "int_mul_1_5 12175074063190660 = Inr 18262611094785992"
  using int_mul_1_5_eval [OF b80 z80] by (simp add: py_trunc_def floor_numeral_div)

lemma b76: "b64 (of_int 2404952901370995) = 2404952901370995"
  using b64_frac [of 2404952901370995 1 1 2 51]
  by (simp add: round_half_even_numeral round_half_even_numeral_int)

lemma z76: "b64 (2404952901370995 * (3 / 2)) = 7214858704112985 / 2"
  using b64_frac [of 7214858704112985 2 1 2 51]
  by (simp add: round_half_even_numeral round_half_even_numeral_int)

lemma big76: "int_mul_1_5 2404952901370995 = Inr 3607429352056492"
  using int_mul_1_5_eval [OF b76 z76] by (simp add: py_trunc_def floor_numeral_div)

lemma b77: "b64 (of_int 3607429352056492) = 3607429352056492"
  using b64_frac [of 3607429352056492 1 1 2 51]
  by (simp add: round_half_even_numeral round_half_even_numeral_int)

lemma z77: "b64 (3607429352056492 * (3 / 2)) = 5411144028084738"
  using b64_frac [of 5411144028084738 1 1 1 52]
  by (simp add: round_half_even_numeral round_half_even_numeral_int)

lemma big77: "int_mul_1_5 3607429352056492 = Inr 5411144028084738"
  using int_mul_1_5_eval [OF b77 z77] by (simp add: py_trunc_def floor_numeral_div)

lemma b78: "b64 (of_int 5411144028084738) = 5411144028084738"
  using b64_frac [of 5411144028084738 1 1 1 52]
  by (simp add: round_half_even_numeral round_half_even_numeral_int)

lemma z78: "b64 (5411144028084738 * (3 / 2)) = 8116716042127107"
  using b64_frac [of 8116716042127107 1 1 1 52]
  by (simp add: round_half_even_numeral round_half_even_numeral_int)

lemma big78: "int_mul_1_5 5411144028084738 = Inr 8116716042127107"
  using int_mul_1_5_eval [OF b78 z78] by (simp add: py_trunc_def floor_numeral_div)

lemmas big_thresholds = big76 big77 big78 big79 big80

lemma level_reference_at: "level_reference 54787833284357819 = 83"
  by code_simp

lemma calculate_level_at: "calculate_level 54787833284357819 = Some (Inr 82)"
  unfolding calculate_level_def
  by (simp add: level_loop_step level_loop_stop int_mul_1_5_exact big_thresholds)

subsection \<open>The leveling function and its reference\<close>

lemma level_reference_small:
  "level_reference 0 = 1" "level_reference 100 = 2" "level_reference 250 = 3"
  "level_reference 1500 = 6"
  by code_simp+

text \<open>
  Claim C9, as the code has it. For every xp below \<open>2 ^ 51\<close> the function returns
  the level of the reference definition, so that the levels of 0, 100 and 250 are 1, 2
  and 3; and wherever it returns a level for \<open>b\<close> it returns one for every \<open>a \<le> b\<close>,
  which is not greater.
\<close>

theorem calculate_level_reference:
  "(xp < 2 ^ 51 \<longrightarrow> calculate_level xp = Some (Inr (level_reference xp)))
   \<and> calculate_level 0 = Some (Inr 1)
   \<and> calculate_level 100 = Some (Inr 2)
   \<and> calculate_level 250 = Some (Inr 3)
   \<and> (a \<le> b \<and> calculate_level b = Some (Inr lb) \<longrightarrow>
        (\<exists>la. calculate_level a = Some (Inr la) \<and> la \<le> lb))"
proof -
  have ref: "calculate_level x = Some (Inr (level_reference x))" if "x < 2 ^ 51" for x
    unfolding calculate_level_def level_reference_def
    using that by (intro level_loop_reference) auto
  have mono: "\<exists>la. calculate_level a = Some (Inr la) \<and> la \<le> lb"
    if "a \<le> b" and "calculate_level b = Some (Inr lb)"
    using that unfolding calculate_level_def
    by (intro level_loop_mono [of 100 b "nat b"]) auto
  show ?thesis
    using ref [of xp] ref [of 0] ref [of 100] ref [of 250] mono
    by (simp add: level_reference_small)
qed

theorem calculate_level_reference_witness:
  "calculate_level 1500 = Some (Inr 6)
   \<and> (\<exists>la. calculate_level 100 = Some (Inr la) \<and> la \<le> 3)"
  using calculate_level_reference [of 1500 100 250 3]
  by (simp add: level_reference_small)

text \<open>
  Claim C9 as stated has the function equal the reference on every xp. The
  product \<^verbatim>\<open>xp_for_next * 1.5\<close> is a float: from the 81st threshold on it is
  rounded, and at the xp below the function returns 82 where the reference has 83.
\<close>

theorem calculate_level_float_counterexample:
  "calculate_level 54787833284357819 = Some (Inr 82)
   \<and> level_reference 54787833284357819 = 83"
  by (simp add: calculate_level_at level_reference_at)

section \<open>The gateway: \<^verbatim>\<open>POST /api/analyze\<close>\<close>

text \<open>
  The handler \<^verbatim>\<open>analyze_code\<close> of \<^verbatim>\<open>backend/main.py\<close> (lines 494-651), block by
  block.
\<close>

subsection \<open>Python operators on JSON values\<close>

text \<open>The truth value of a value in a condition.\<close>

fun truthy :: "json \<Rightarrow> bool" where
  "truthy JNull = False"
| "truthy (JBool b) = b"
| "truthy (JInt n) = (n \<noteq> 0)"
| "truthy (JFloat a) = (a \<noteq> Fin 0)"
| "truthy (JStr s) = (s \<noteq> [])"
| "truthy (JArr xs) = (xs \<noteq> [])"
| "truthy (JObj d) = (d \<noteq> [])"

text \<open>\<^verbatim>\<open>v[key]\<close> for a string \<open>key\<close>.\<close>

fun py_getitem :: "json \<Rightarrow> string \<Rightarrow> py_error + json" where
  "py_getitem (JObj d) key = (case map_of d key of None \<Rightarrow> Inl KeyError | Some v \<Rightarrow> Inr v)"
| "py_getitem v key = Inl TypeError"

text \<open>\<^verbatim>\<open>v.get(key, default)\<close>: only a dict has the method.\<close>

fun py_get :: "json \<Rightarrow> string \<Rightarrow> json \<Rightarrow> py_error + json" where
  "py_get (JObj d) key dflt = (case map_of d key of None \<Rightarrow> Inr dflt | Some v \<Rightarrow> Inr v)"
| "py_get v key dflt = Inl AttributeError"

text \<open>\<^verbatim>\<open>v * w\<close> for a float \<open>w\<close>; a \<^verbatim>\<open>bool\<close> is the \<^verbatim>\<open>int\<close> 0 or 1.\<close>

fun mul_float :: "json \<Rightarrow> pyfloat \<Rightarrow> py_error + pyfloat" where
  "mul_float (JInt n) w =
     (case float_of_int n of Inl e \<Rightarrow> Inl e | Inr a \<Rightarrow> Inr (fl_mul a w))"
| "mul_float (JBool b) w = Inr (fl_mul (Fin (if b then 1 else 0)) w)"
| "mul_float (JFloat a) w = Inr (fl_mul a w)"
| "mul_float v w = Inl TypeError"

text \<open>
  \<^verbatim>\<open>v >= n\<close> for an \<^verbatim>\<open>int\<close> \<open>n\<close>; an \<^verbatim>\<open>int\<close> and a float are compared by
  value, and \<^verbatim>\<open>nan\<close> compares false.
\<close>

fun ge_int :: "json \<Rightarrow> int \<Rightarrow> py_error + bool" where
  "ge_int (JInt m) n = Inr (n \<le> m)"
| "ge_int (JBool b) n = Inr (n \<le> (if b then 1 else 0))"
| "ge_int (JFloat (Fin x)) n = Inr (of_int n \<le> x)"
| "ge_int (JFloat PInf) n = Inr True"
| "ge_int (JFloat NInf) n = Inr False"
| "ge_int (JFloat NaN) n = Inr False"
| "ge_int v n = Inl TypeError"

subsection \<open>The calls to the backends\<close>

datatype kind = Code_quality | Architecture | Event_loop | Cost

text \<open>
  What one \<^verbatim>\<open>await client.post(...)\<close> comes to: an exception (a timeout, a failure
  of the transport), or a response with its status code and its body, \<open>None\<close> when
  the body is no JSON document and \<^verbatim>\<open>resp.json()\<close> raises. With it comes the time
  the call takes to settle, in milliseconds.
\<close>

datatype post_result = Post_raises | Response nat "json option"

text \<open>
  One \<^verbatim>\<open>try\<close> block:
  \<^verbatim>\<open>results[k] = resp.json() if resp.status_code == 200 else None\<close>, and \<^verbatim>\<open>None\<close>
  in the \<^verbatim>\<open>except\<close> branch.
\<close>

fun result_of :: "post_result \<Rightarrow> json" where
  "result_of Post_raises = JNull"
| "result_of (Response status_code body) =
     (if status_code = 200 then (case body of None \<Rightarrow> JNull | Some v \<Rightarrow> v) else JNull)"

text \<open>
  The four blocks follow one another and each awaits its response before the next
  call is made. \<open>call_mcps\<close> returns the results and, for each call, the times at
  which it is made and at which it settles, the clock starting at 0.
\<close>

definition call_order :: "kind list" where
  "call_order = [Code_quality, Architecture, Event_loop, Cost]"

fun call_log :: "(kind \<Rightarrow> post_result \<times> nat) \<Rightarrow> nat \<Rightarrow> kind list \<Rightarrow> (kind \<times> nat \<times> nat) list" where
  "call_log mcp clock [] = []"
| "call_log mcp clock (k # ks) =
     (k, clock, clock + snd (mcp k)) # call_log mcp (clock + snd (mcp k)) ks"

definition call_mcps ::
  "(kind \<Rightarrow> post_result \<times> nat) \<Rightarrow> (kind \<Rightarrow> json) \<times> (kind \<times> nat \<times> nat) list" where
  "call_mcps mcp = (\<lambda>k. result_of (fst (mcp k)), call_log mcp 0 call_order)"

subsection \<open>The overall score\<close>

definition score_key :: "kind \<Rightarrow> string" where
  "score_key k = (case k of
      Code_quality \<Rightarrow> ''score''
    | Architecture \<Rightarrow> ''architecture_score''
    | Event_loop \<Rightarrow> ''event_loop_score''
    | Cost \<Rightarrow> ''efficiency_score'')"

text \<open>The dict \<^verbatim>\<open>weights\<close>; its values are the floats nearest to the literals.\<close>

definition weights :: "kind \<Rightarrow> pyfloat" where
  "weights k = (case k of
      Code_quality \<Rightarrow> fl_round (3 / 10)
    | Architecture \<Rightarrow> fl_round (1 / 4)
    | Event_loop \<Rightarrow> fl_round (1 / 5)
    | Cost \<Rightarrow> fl_round (1 / 4))"

text \<open>
  \<^verbatim>\<open>if results[k] and key in results[k]: scores.append((k, results[k][key], weights[k]))\<close>
  for the four kinds in turn.
\<close>

fun collect_scores :: "(kind \<Rightarrow> json) \<Rightarrow> kind list \<Rightarrow> py_error + (json \<times> pyfloat) list" where
  "collect_scores results [] = Inr []"
| "collect_scores results (k # ks) =
     (case (if truthy (results k) then py_in (score_key k) (results k) else Inr False) of
        Inl e \<Rightarrow> Inl e
      | Inr False \<Rightarrow> collect_scores results ks
      | Inr True \<Rightarrow>
          (case py_getitem (results k) (score_key k) of
             Inl e \<Rightarrow> Inl e
           | Inr v \<Rightarrow>
               (case collect_scores results ks of
                  Inl e \<Rightarrow> Inl e
                | Inr scores \<Rightarrow> Inr ((v, weights k) # scores))))"

text \<open>
  \<^verbatim>\<open>sum(...)\<close> of floats, from the left. The start value is the \<^verbatim>\<open>int\<close> 0, and
  \<^verbatim>\<open>0 + x\<close> is \<open>x\<close>. Every addition is rounded: that is \<^verbatim>\<open>sum\<close> up to
  CPython 3.11. From 3.12 on \<^verbatim>\<open>sum\<close> carries a correction term for floats, and its
  result is at least as close to the exact sum.
\<close>

fun sum_weights :: "(json \<times> pyfloat) list \<Rightarrow> pyfloat \<Rightarrow> pyfloat" where
  "sum_weights [] acc = acc"
| "sum_weights ((v, w) # scores) acc = sum_weights scores (fl_add acc w)"

fun sum_products :: "(json \<times> pyfloat) list \<Rightarrow> pyfloat \<Rightarrow> py_error + pyfloat" where
  "sum_products [] acc = Inr acc"
| "sum_products ((v, w) # scores) acc =
     (case mul_float v w of
        Inl e \<Rightarrow> Inl e
      | Inr p \<Rightarrow> sum_products scores (fl_add acc p))"

definition overall_score_of :: "(json \<times> pyfloat) list \<Rightarrow> py_error + int" where
  "overall_score_of scores =
     (if scores = [] then Inr 0
      else
        (let total_weight = sum_weights scores (Fin 0)
         in case sum_products scores (Fin 0) of
              Inl e \<Rightarrow> Inl e
            | Inr weighted \<Rightarrow>
                (case fl_div weighted total_weight of
                   Inl e \<Rightarrow> Inl e
                 | Inr q \<Rightarrow> int_of_float q)))"

text \<open>The lines 545-566 together.\<close>

definition overall_score :: "(kind \<Rightarrow> json) \<Rightarrow> py_error + int" where
  "overall_score results =
     (case collect_scores results call_order of
        Inl e \<Rightarrow> Inl e
      | Inr scores \<Rightarrow> overall_score_of scores)"

subsection \<open>Status, XP and badges\<close>

definition status_of :: "int \<Rightarrow> string" where
  "status_of score =
     (if 85 \<le> score then ''excellent''
      else if 70 \<le> score then ''good''
      else if 50 \<le> score then ''needs_improvement''
      else ''critical'')"

definition badge_name :: "kind \<Rightarrow> string" where
  "badge_name k = (case k of
      Code_quality \<Rightarrow> ''Clean Coder''
    | Architecture \<Rightarrow> ''Architect Master''
    | Event_loop \<Rightarrow> ''Async Ninja''
    | Cost \<Rightarrow> ''Optimizer'')"

text \<open>
  \<^verbatim>\<open>if results[k] and results[k].get(key, 0) >= 90: badges.append(name)\<close> for the
  four kinds in turn.
\<close>

fun kind_badges :: "(kind \<Rightarrow> json) \<Rightarrow> kind list \<Rightarrow> py_error + string list" where
  "kind_badges results [] = Inr []"
| "kind_badges results (k # ks) =
     (case (if truthy (results k)
            then (case py_get (results k) (score_key k) (JInt 0) of
                    Inl e \<Rightarrow> Inl e
                  | Inr v \<Rightarrow> ge_int v 90)
            else Inr False) of
        Inl e \<Rightarrow> Inl e
      | Inr b \<Rightarrow>
          (case kind_badges results ks of
             Inl e \<Rightarrow> Inl e
           | Inr badges \<Rightarrow> Inr (if b then badge_name k # badges else badges)))"

definition badges_of :: "(kind \<Rightarrow> json) \<Rightarrow> int \<Rightarrow> py_error + string list" where
  "badges_of results score =
     (case kind_badges results call_order of
        Inl e \<Rightarrow> Inl e
      | Inr badges \<Rightarrow> Inr (if 95 \<le> score then badges @ [''Code Legend''] else badges))"

subsection \<open>The request, the tables and the response\<close>

record analysis_request =
  req_code :: string
  req_language :: "string option"
  req_file_path :: "string option"
  req_commit_id :: "string option"
  req_project_id :: "string option"
  req_user_id :: "string option"

text \<open>The truth value of an optional string: \<^verbatim>\<open>None\<close> and the empty string are false.\<close>

fun str_truthy :: "string option \<Rightarrow> bool" where
  "str_truthy None = False"
| "str_truthy (Some s) = (s \<noteq> [])"

fun json_of_str :: "string option \<Rightarrow> json" where
  "json_of_str None = JNull"
| "json_of_str (Some s) = JStr s"

text \<open>
  A row of \<^verbatim>\<open>analysis_reports\<close>, with the columns the statements of the gateway
  name. A column holds the value that the statement passes, \<open>JNull\<close> for
  \<^verbatim>\<open>NULL\<close>; a report column holds the value whose \<^verbatim>\<open>json.dumps\<close> text is stored,
  \<open>None\<close> for \<^verbatim>\<open>NULL\<close>. A row of \<^verbatim>\<open>users\<close> has the two columns the gateway
  updates. The schema is not part of the sources: the statement
  \<^verbatim>\<open>ON CONFLICT (report_id)\<close> of \<^verbatim>\<open>store_report\<close> needs a unique index on
  \<^verbatim>\<open>report_id\<close>, and the model has it.
\<close>

record report_row =
  row_report_id :: json
  row_project_id :: json
  row_commit_id :: json
  row_file_path :: json
  row_overall_score :: json
  row_status :: json
  row_code_quality_score :: json
  row_architecture_score :: json
  row_event_loop_score :: json
  row_efficiency_score :: json
  row_code_quality_report :: "json option"
  row_architecture_report :: "json option"
  row_event_loop_report :: "json option"
  row_cost_report :: "json option"
  row_xp_earned :: json
  row_badges_earned :: json

record user_row =
  xp_total :: int
  level :: int

record database =
  analysis_reports :: "report_row list"
  users :: "string \<rightharpoonup> user_row"

text \<open>
  A statement can fail for reasons the handler does not control (a lost
  connection, a constraint of the schema, a value that the type of a column rejects):
  the flags say which of the steps raise.
\<close>

record db_faults =
  acquire_raises :: bool
  insert_raises :: bool
  update_raises :: bool

record analysis_report =
  rep_report_id :: string
  rep_overall_score :: int
  rep_status :: string
  rep_code_quality :: json
  rep_architecture :: json
  rep_event_loop :: json
  rep_cost_analysis :: json
  rep_xp_earned :: int
  rep_badges_earned :: "string list"
  rep_level_up :: bool
  rep_analyzed_at :: string

subsection \<open>Saving the report and crediting the user\<close>

text \<open>
  \<^verbatim>\<open>results[k].get(key) if results[k] else None\<close> and
  \<^verbatim>\<open>json.dumps(results[k]) if results[k] else None\<close>.
\<close>

definition score_column :: "(kind \<Rightarrow> json) \<Rightarrow> kind \<Rightarrow> py_error + json" where
  "score_column results k =
     (if truthy (results k) then py_get (results k) (score_key k) JNull else Inr JNull)"

definition report_column :: "(kind \<Rightarrow> json) \<Rightarrow> kind \<Rightarrow> json option" where
  "report_column results k = (if truthy (results k) then Some (results k) else None)"

text \<open>The statement \<^verbatim>\<open>UPDATE users SET xp_total = xp_total + $1, level = $2 WHERE id = $3\<close>.\<close>

definition update_user :: "(string \<rightharpoonup> user_row) \<Rightarrow> int \<Rightarrow> int \<Rightarrow> string \<Rightarrow> (string \<rightharpoonup> user_row)" where
  "update_user us p1 p2 p3 =
     (case us p3 of
        None \<Rightarrow> us
      | Some u \<Rightarrow> us(p3 \<mapsto> u\<lparr>xp_total := xp_total u + p1, level := p2\<rparr>))"

text \<open>
  The block under \<^verbatim>\<open>if db_pool and request.project_id\<close> (lines 597-635). Every
  exception inside it is caught and logged, and what the statements before it have
  written stays: the connection runs no transaction. The second argument of the
  update is \<^verbatim>\<open>calculate_level(xp_earned)\<close>. The result is the database after the
  block, \<open>None\<close> if the block does not end.
\<close>

definition save_report ::
  "bool \<Rightarrow> db_faults \<Rightarrow> database \<Rightarrow> analysis_request \<Rightarrow> (kind \<Rightarrow> json) \<Rightarrow> string \<Rightarrow> int
     \<Rightarrow> string \<Rightarrow> int \<Rightarrow> string list \<Rightarrow> database option" where
  "save_report db_pool faults db request results report_id score status xp_earned badges =
     (if \<not> (db_pool \<and> str_truthy (req_project_id request)) then Some db
      else if acquire_raises faults then Some db
      else
        (case (score_column results Code_quality, score_column results Architecture,
               score_column results Event_loop, score_column results Cost) of
           (Inr s1, Inr s2, Inr s3, Inr s4) \<Rightarrow>
             if insert_raises faults \<or> JStr report_id \<in> row_report_id ` set (analysis_reports db)
             then Some db
             else
               (let db1 = db\<lparr>analysis_reports := analysis_reports db @
                     [\<lparr> row_report_id = JStr report_id,
                         row_project_id = json_of_str (req_project_id request),
                         row_commit_id = json_of_str (req_commit_id request),
                         row_file_path = json_of_str (req_file_path request),
                         row_overall_score = JInt score,
                         row_status = JStr status,
                         row_code_quality_score = s1,
                         row_architecture_score = s2,
                         row_event_loop_score = s3,
                         row_efficiency_score = s4,
                         row_code_quality_report = report_column results Code_quality,
                         row_architecture_report = report_column results Architecture,
                         row_event_loop_report = report_column results Event_loop,
                         row_cost_report = report_column results Cost,
                         row_xp_earned = JInt xp_earned,
                         row_badges_earned = JArr (map JStr badges) \<rparr>]\<rparr>
                in case req_user_id request of
                     None \<Rightarrow> Some db1
                   | Some user_id \<Rightarrow>
                       if user_id = [] then Some db1
                       else
                         (case calculate_level xp_earned of
                            None \<Rightarrow> None
                          | Some (Inl e) \<Rightarrow> Some db1
                          | Some (Inr new_level) \<Rightarrow>
                              if update_raises faults then Some db1
                              else Some (db1\<lparr>users :=
                                     update_user (users db1) xp_earned new_level user_id\<rparr>)))
         | _ \<Rightarrow> Some db))"

subsection \<open>The response and the handler\<close>

text \<open>
  The fields \<^verbatim>\<open>code_quality\<close>, \<^verbatim>\<open>architecture\<close>, \<^verbatim>\<open>event_loop\<close> and
  \<^verbatim>\<open>cost_analysis\<close> of \<^verbatim>\<open>AnalysisReport\<close> are declared
  \<^verbatim>\<open>Optional[Dict[str, Any]]\<close>: the construction accepts a dict or \<^verbatim>\<open>None\<close>. (Of
  the other values only the false ones can reach it, and pydantic 1 turns an empty
  list or string into an empty dict instead of rejecting it.)
\<close>

fun dict_or_none :: "json \<Rightarrow> bool" where
  "dict_or_none JNull = True"
| "dict_or_none (JObj d) = True"
| "dict_or_none v = False"

definition analysis_report_of ::
  "(kind \<Rightarrow> json) \<Rightarrow> string \<Rightarrow> int \<Rightarrow> string \<Rightarrow> int \<Rightarrow> string list \<Rightarrow> string
     \<Rightarrow> py_error + analysis_report" where
  "analysis_report_of results report_id score status xp_earned badges analyzed_at =
     (if dict_or_none (results Code_quality) \<and> dict_or_none (results Architecture)
         \<and> dict_or_none (results Event_loop) \<and> dict_or_none (results Cost)
      then Inr \<lparr> rep_report_id = report_id,
                   rep_overall_score = score,
                   rep_status = status,
                   rep_code_quality = results Code_quality,
                   rep_architecture = results Architecture,
                   rep_event_loop = results Event_loop,
                   rep_cost_analysis = results Cost,
                   rep_xp_earned = xp_earned,
                   rep_badges_earned = badges,
                   rep_level_up = (90 \<le> score),
                   rep_analyzed_at = analyzed_at \<rparr>
      else Inl ValidationError)"

text \<open>
  The handler. \<open>db_pool\<close> says whether the pool exists, \<open>stamp\<close> is the time of
  the report identifier (\<^verbatim>\<open>%Y%m%d%H%M%S\<close>) and \<open>analyzed_at\<close> the time stamp of the
  response. The result holds the response, or the exception that leaves the handler
  (the framework answers it with status 500), the database afterwards and the log of
  the calls to the backends; \<open>None\<close> if the handler does not return.
\<close>

definition analyze_code ::
  "bool \<Rightarrow> db_faults \<Rightarrow> string \<Rightarrow> string \<Rightarrow> (kind \<Rightarrow> post_result \<times> nat) \<Rightarrow> database
     \<Rightarrow> analysis_request
     \<Rightarrow> ((py_error + analysis_report) \<times> database \<times> (kind \<times> nat \<times> nat) list) option" where
  "analyze_code db_pool faults stamp analyzed_at mcp db request =
     (let (results, calls) = call_mcps mcp
      in case overall_score results of
           Inl e \<Rightarrow> Some (Inl e, db, calls)
         | Inr score \<Rightarrow>
             (let status = status_of score;
                  xp_earned = score * 10
              in case badges_of results score of
                   Inl e \<Rightarrow> Some (Inl e, db, calls)
                 | Inr badges \<Rightarrow>
                     (let report_id = ''RPT-'' @ stamp
                      in case save_report db_pool faults db request results report_id
                                score status xp_earned badges of
                           None \<Rightarrow> None
                         | Some db' \<Rightarrow>
                             Some (analysis_report_of results report_id score status
                                     xp_earned badges analyzed_at,
                                   db', calls))))"

subsection \<open>Rounding errors\<close>

text \<open>
  \<open>near n x y\<close>: the float \<open>y\<close> stands for the exact value \<open>x \<ge> 0\<close> after at
  most \<open>n\<close> roundings, each with a relative error of at most \<open>1 / 2 ^ 53\<close>.
\<close>

definition near :: "nat \<Rightarrow> rat \<Rightarrow> rat \<Rightarrow> bool" where
  "near n x y \<longleftrightarrow> x * (1 - 1 / 2 ^ 53) ^ n \<le> y \<and> y \<le> x * (1 + 1 / 2 ^ 53) ^ n"

lemma near_refl: "near 0 x x"
  by (simp add: near_def)

lemma near_zero: "near n 0 0"
  by (simp add: near_def)

lemma near_zeroD: "near n 0 y \<Longrightarrow> y = 0"
  by (simp add: near_def)

lemma near_mono:
  assumes "0 \<le> x" and "m \<le> n" and "near m x y"
  shows "near n x y"
proof -
  have "(1 - 1 / 2 ^ 53 :: rat) ^ n \<le> (1 - 1 / 2 ^ 53) ^ m"
    using assms(2) by (intro power_decreasing) auto
  then have lo: "x * (1 - 1 / 2 ^ 53) ^ n \<le> x * (1 - 1 / 2 ^ 53) ^ m"
    using assms(1) by (rule mult_left_mono)
  have "(1 + 1 / 2 ^ 53 :: rat) ^ m \<le> (1 + 1 / 2 ^ 53) ^ n"
    using assms(2) by (intro power_increasing) auto
  then have hi: "x * (1 + 1 / 2 ^ 53) ^ m \<le> x * (1 + 1 / 2 ^ 53) ^ n"
    using assms(1) by (rule mult_left_mono)
  show ?thesis
    using assms(3) lo hi unfolding near_def by linarith
qed

lemma near_add: "near n x1 y1 \<Longrightarrow> near n x2 y2 \<Longrightarrow> near n (x1 + x2) (y1 + y2)"
  unfolding near_def by (simp add: distrib_right add_mono)

lemma near_scale:
  assumes "0 \<le> c" and "near n x y"
  shows "near n (c * x) (c * y)"
proof -
  have "c * (x * (1 - 1 / 2 ^ 53) ^ n) \<le> c * y" and "c * y \<le> c * (x * (1 + 1 / 2 ^ 53) ^ n)"
    using assms unfolding near_def by (auto intro: mult_left_mono)
  then show ?thesis unfolding near_def by (simp add: mult.assoc)
qed

lemma eps_pow_bounds:
  assumes "n \<le> 16"
  shows "(1 - 1 / 2 ^ 48 :: rat) \<le> (1 - 1 / 2 ^ 53) ^ n" and "(1 + 1 / 2 ^ 53 :: rat) ^ n \<le> 1 + 1 / 2 ^ 48"
proof -
  have "(1 - 1 / 2 ^ 48 :: rat) \<le> (1 - 1 / 2 ^ 53) ^ 16" by (simp add: power_divide)
  also have "\<dots> \<le> (1 - 1 / 2 ^ 53) ^ n"
    using assms by (intro power_decreasing) auto
  finally show "(1 - 1 / 2 ^ 48 :: rat) \<le> (1 - 1 / 2 ^ 53) ^ n" .
  have "(1 + 1 / 2 ^ 53 :: rat) ^ n \<le> (1 + 1 / 2 ^ 53) ^ 16"
    using assms by (intro power_increasing) auto
  also have "\<dots> \<le> 1 + 1 / 2 ^ 48" by (simp add: power_divide)
  finally show "(1 + 1 / 2 ^ 53 :: rat) ^ n \<le> 1 + 1 / 2 ^ 48" .
qed

lemma near_bounds:
  assumes "0 \<le> x" and "n \<le> 16" and "near n x y"
  shows "x * (1 - 1 / 2 ^ 48) \<le> y" and "y \<le> x * (1 + 1 / 2 ^ 48)"
proof -
  have "x * (1 - 1 / 2 ^ 48) \<le> x * (1 - 1 / 2 ^ 53) ^ n"
    using assms(1) eps_pow_bounds(1) [OF assms(2)] by (rule mult_left_mono [rotated])
  then show "x * (1 - 1 / 2 ^ 48) \<le> y" using assms(3) unfolding near_def by linarith
  have "x * (1 + 1 / 2 ^ 53) ^ n \<le> x * (1 + 1 / 2 ^ 48)"
    using assms(1) eps_pow_bounds(2) [OF assms(2)] by (rule mult_left_mono [rotated])
  then show "y \<le> x * (1 + 1 / 2 ^ 48)" using assms(3) unfolding near_def by linarith
qed

lemma fl_round_zero: "fl_round 0 = Fin 0"
  by (simp add: fl_round_def round_half_even_def)

lemma fl_round_normal:
  assumes "2 powi (- 1022) \<le> y" and "y < 2 ^ 1023"
  shows "\<exists>z. fl_round y = Fin z \<and> y * (1 - 1 / 2 ^ 53) \<le> z \<and> z \<le> y * (1 + 1 / 2 ^ 53)"
proof -
  have y: "0 < y" using assms(1) zero_less_power_int [of "2::rat" "- 1022"] by linarith
  have err: "\<bar>b64 y - y\<bar> \<le> y / 2 ^ 53"
    using b64_rel_error [of y] y by simp
  then have e1: "b64 y - y \<le> y / 2 ^ 53" and e2: "- (b64 y - y) \<le> y / 2 ^ 53"
    by (auto simp only: abs_le_iff)
  have d1: "y * (1 - 1 / 2 ^ 53) = y - y / 2 ^ 53" by (simp add: right_diff_distrib)
  have d2: "y * (1 + 1 / 2 ^ 53) = y + y / 2 ^ 53" by (simp add: distrib_left)
  have lo: "y * (1 - 1 / 2 ^ 53) \<le> b64 y" unfolding d1 using e2 by linarith
  have hi: "b64 y \<le> y * (1 + 1 / 2 ^ 53)" unfolding d2 using e1 by linarith
  have "y * (1 + 1 / 2 ^ 53) \<le> y * 2" using y by (intro mult_left_mono) auto
  then have "b64 y < 2 ^ 1024" using hi assms(2) by simp
  moreover have "0 \<le> b64 y"
  proof -
    have "0 \<le> y * (1 - 1 / 2 ^ 53)" using y by (intro mult_nonneg_nonneg) auto
    then show ?thesis using lo by linarith
  qed
  ultimately have "\<not> 2 powi 1024 \<le> \<bar>b64 y\<bar>" by simp
  then have "fl_round y = Fin (b64 y)"
    using assms(1) y by (simp add: fl_round_def Let_def)
  then show ?thesis using lo hi by simp
qed

lemma fl_round_near:
  assumes "near n x y" and "x = 0 \<or> 1 / 16 \<le> x" and "x \<le> 1000" and "n \<le> 15"
  shows "\<exists>z. fl_round y = Fin z \<and> near (Suc n) x z"
proof (cases "x = 0")
  case True
  then have "y = 0" using assms(1) by (simp add: near_zeroD)
  then show ?thesis using True by (simp add: fl_round_zero near_zero)
next
  case False
  then have x: "1 / 16 \<le> x" using assms(2) by simp
  then have x0: "0 \<le> x" by simp
  have n16: "n \<le> 16" using assms(4) by simp
  note b = near_bounds [OF x0 n16 assms(1)]
  have "(1 / 16) * (1 - 1 / 2 ^ 48) \<le> x * (1 - 1 / 2 ^ 48)"
    using x by (intro mult_right_mono) auto
  then have ylo: "1 / 32 \<le> y" using b(1) by simp
  have "x * (1 + 1 / 2 ^ 48) \<le> 1000 * (1 + 1 / 2 ^ 48)"
    using assms(3) by (intro mult_right_mono) auto
  then have yhi: "y \<le> 2000" using b(2) by simp
  have "(2::rat) powi (- 1022) \<le> 2 powi (- 5)"
    by (intro power_int_increasing) auto
  also have "\<dots> = 1 / 32" by (simp add: power_int_minus_divide)
  finally have "2 powi (- 1022) \<le> y" using ylo by simp
  moreover have "y < 2 ^ 1023" using yhi by simp
  ultimately obtain z where z: "fl_round y = Fin z"
      "y * (1 - 1 / 2 ^ 53) \<le> z" "z \<le> y * (1 + 1 / 2 ^ 53)"
    using fl_round_normal by blast
  have "x * (1 - 1 / 2 ^ 53) ^ n * (1 - 1 / 2 ^ 53) \<le> y * (1 - 1 / 2 ^ 53)"
    using assms(1) unfolding near_def by (intro mult_right_mono) auto
  moreover have "y * (1 + 1 / 2 ^ 53) \<le> x * (1 + 1 / 2 ^ 53) ^ n * (1 + 1 / 2 ^ 53)"
    using assms(1) unfolding near_def by (intro mult_right_mono) auto
  ultimately have "near (Suc n) x z"
    using z(2,3) unfolding near_def by (simp add: mult.assoc)
  then show ?thesis using z(1) by blast
qed

subsection \<open>The score and the exact weighted average\<close>

text \<open>The weights as the literals denote them.\<close>

definition exact_weight :: "kind \<Rightarrow> rat" where
  "exact_weight k = (case k of
      Code_quality \<Rightarrow> 3 / 10
    | Architecture \<Rightarrow> 1 / 4
    | Event_loop \<Rightarrow> 1 / 5
    | Cost \<Rightarrow> 1 / 4)"

definition int_weight :: "kind \<Rightarrow> int" where
  "int_weight k = (case k of Code_quality \<Rightarrow> 6 | Architecture \<Rightarrow> 5 | Event_loop \<Rightarrow> 4 | Cost \<Rightarrow> 5)"

lemma exact_weight_int: "exact_weight k = of_int (int_weight k) / 20"
  by (cases k) (simp_all add: exact_weight_def int_weight_def)

lemma int_weight_bounds: "4 \<le> int_weight k" "int_weight k \<le> 6"
  by (cases k; simp add: int_weight_def)+

lemma exact_weight_bounds: "1 / 5 \<le> exact_weight k" "exact_weight k \<le> 3 / 10"
  by (cases k; simp add: exact_weight_def)+

lemma weights_near: "\<exists>w. weights k = Fin w \<and> near 1 (exact_weight k) w"
proof -
  have "\<exists>z. fl_round (exact_weight k) = Fin z \<and> near (Suc 0) (exact_weight k) z"
    using exact_weight_bounds [of k] by (intro fl_round_near near_refl) auto
  moreover have "weights k = fl_round (exact_weight k)"
    by (cases k) (simp_all add: weights_def exact_weight_def)
  ultimately show ?thesis by simp
qed

lemma float_of_small_int:
  assumes "0 \<le> s" and "s \<le> 100"
  shows "float_of_int s = Inr (Fin (of_int s))"
proof -
  have x: "b64 (of_int s) = of_int s"
  proof (cases "s = 0")
    case True
    then show ?thesis by (simp add: b64_def)
  next
    case False
    then have "b64 (of_int (2 * s) / 2) = of_int (2 * s) / 2"
      using assms by (intro b64_half_int) auto
    then show ?thesis by simp
  qed
  have "(of_int s :: rat) \<le> of_int 100" using assms(2) by (simp only: of_int_le_iff)
  then have "\<not> 2 powi 1024 \<le> \<bar>(of_int s :: rat)\<bar>" using assms(1) by simp
  then show ?thesis by (simp add: float_of_int_def Let_def x)
qed

lemma small_product_bounds:
  assumes "0 \<le> s" and "s \<le> 100"
  shows "0 \<le> of_int s * exact_weight k"
    and "of_int s * exact_weight k \<le> 30"
    and "of_int s * exact_weight k = 0 \<or> 1 / 16 \<le> of_int s * exact_weight k"
proof -
  have s0: "(0::rat) \<le> of_int s" using assms(1) by simp
  have s100: "(of_int s :: rat) \<le> 100"
    using assms(2) of_int_le_iff [of s 100, where ?'a = rat] by simp
  note w = exact_weight_bounds [of k]
  show "0 \<le> of_int s * exact_weight k" using s0 w by simp
  have "of_int s * exact_weight k \<le> 100 * (3 / 10)"
    using s0 s100 w by (intro mult_mono) auto
  then show "of_int s * exact_weight k \<le> 30" by simp
  show "of_int s * exact_weight k = 0 \<or> 1 / 16 \<le> of_int s * exact_weight k"
  proof (cases "s = 0")
    case True
    then show ?thesis by simp
  next
    case False
    then have "1 \<le> s" using assms(1) by simp
    then have "(1::rat) \<le> of_int s" by simp
    then have "1 * (1 / 5) \<le> of_int s * exact_weight k"
      using w by (intro mult_mono) auto
    then show ?thesis by simp
  qed
qed

lemma mul_float_near:
  assumes "0 \<le> s" and "s \<le> 100"
  shows "\<exists>p. mul_float (JInt s) (weights k) = Inr (Fin p) \<and> near 2 (of_int s * exact_weight k) p"
proof -
  obtain w where w: "weights k = Fin w" "near 1 (exact_weight k) w"
    using weights_near by blast
  have "near 1 (of_int s * exact_weight k) (of_int s * w)"
    using assms(1) w(2) by (intro near_scale) auto
  then have "\<exists>z. fl_round (of_int s * w) = Fin z \<and> near (Suc 1) (of_int s * exact_weight k) z"
    using small_product_bounds [OF assms, of k] by (intro fl_round_near) auto
  then show ?thesis
    using w(1) float_of_small_int [OF assms] by (simp add: numeral_2_eq_2)
qed

text \<open>The entries of \<^verbatim>\<open>scores\<close> for kinds with \<^verbatim>\<open>int\<close> scores.\<close>

definition int_scores :: "(kind \<times> int) list \<Rightarrow> (json \<times> pyfloat) list" where
  "int_scores ks = map (\<lambda>(k, s). (JInt s, weights k)) ks"

definition exact_products :: "(kind \<times> int) list \<Rightarrow> rat" where
  "exact_products ks = (\<Sum>(k, s)\<leftarrow>ks. of_int s * exact_weight k)"

definition exact_weights :: "(kind \<times> int) list \<Rightarrow> rat" where
  "exact_weights ks = (\<Sum>(k, s)\<leftarrow>ks. exact_weight k)"

lemma sum_products_near:
  assumes "\<forall>(k, s) \<in> set ks. 0 \<le> s \<and> s \<le> 100"
    and "near n A a" and "0 \<le> A" and "A = 0 \<or> 1 / 16 \<le> A"
    and "A + 30 * of_nat (length ks) \<le> 1000" and "2 \<le> n" and "n + length ks \<le> 16"
  shows "\<exists>t. sum_products (int_scores ks) (Fin a) = Inr (Fin t)
           \<and> near (n + length ks) (A + exact_products ks) t"
  using assms
proof (induction ks arbitrary: n A a)
  case Nil
  then show ?case by (simp add: int_scores_def exact_products_def)
next
  case (Cons ks1 ks)
  obtain k s where ks1: "ks1 = (k, s)" by force
  have s: "0 \<le> s" "s \<le> 100" using Cons.prems(1) ks1 by auto
  obtain p where p: "mul_float (JInt s) (weights k) = Inr (Fin p)"
      "near 2 (of_int s * exact_weight k) p"
    using mul_float_near [OF s] by blast
  note pb = small_product_bounds [OF s, of k]
  have "near n (of_int s * exact_weight k) p"
    using pb(1) Cons.prems(6) p(2) by (rule near_mono)
  with Cons.prems(2) have "near n (A + of_int s * exact_weight k) (a + p)"
    by (rule near_add)
  moreover have "A + of_int s * exact_weight k = 0 \<or> 1 / 16 \<le> A + of_int s * exact_weight k"
    using Cons.prems(3,4) pb(1,3) by auto
  moreover have "A + of_int s * exact_weight k \<le> 1000"
    using Cons.prems(5) pb(2) by simp
  moreover have "n \<le> 15" using Cons.prems(7) by simp
  ultimately obtain z where z: "fl_round (a + p) = Fin z"
      "near (Suc n) (A + of_int s * exact_weight k) z"
    using fl_round_near by blast
  have "\<exists>t. sum_products (int_scores ks) (Fin z) = Inr (Fin t)
           \<and> near (Suc n + length ks) (A + of_int s * exact_weight k + exact_products ks) t"
  proof (rule Cons.IH [OF _ z(2)])
    show "\<forall>(k, s) \<in> set ks. 0 \<le> s \<and> s \<le> 100" using Cons.prems(1) by simp
    show "0 \<le> A + of_int s * exact_weight k" using Cons.prems(3) pb(1) by simp
    show "A + of_int s * exact_weight k = 0 \<or> 1 / 16 \<le> A + of_int s * exact_weight k"
      using Cons.prems(3,4) pb(1,3) by auto
    show "A + of_int s * exact_weight k + 30 * of_nat (length ks) \<le> 1000"
      using Cons.prems(5) pb(2) by simp
    show "2 \<le> Suc n" using Cons.prems(6) by simp
    show "Suc n + length ks \<le> 16" using Cons.prems(7) by simp
  qed
  then show ?case
    using p(1) z(1) by (simp add: ks1 int_scores_def exact_products_def add.assoc)
qed

lemma sum_weights_near:
  assumes "near n A a" and "0 \<le> A" and "A = 0 \<or> 1 / 16 \<le> A"
    and "A + of_nat (length ks) \<le> 1000" and "1 \<le> n" and "n + length ks \<le> 16"
  shows "\<exists>t. sum_weights (int_scores ks) (Fin a) = Fin t
           \<and> near (n + length ks) (A + exact_weights ks) t"
  using assms
proof (induction ks arbitrary: n A a)
  case Nil
  then show ?case by (simp add: int_scores_def exact_weights_def)
next
  case (Cons ks1 ks)
  obtain k s where ks1: "ks1 = (k, s)" by force
  obtain w where w: "weights k = Fin w" "near 1 (exact_weight k) w"
    using weights_near by blast
  note wb = exact_weight_bounds [of k]
  have w0: "0 \<le> exact_weight k" using wb(1) by simp
  have "near n (exact_weight k) w"
    using w0 Cons.prems(5) w(2) by (rule near_mono)
  with Cons.prems(1) have "near n (A + exact_weight k) (a + w)"
    by (rule near_add)
  moreover have "A + exact_weight k = 0 \<or> 1 / 16 \<le> A + exact_weight k"
    using Cons.prems(2) wb by auto
  moreover have "A + exact_weight k \<le> 1000"
    using Cons.prems(4) wb by simp
  moreover have "n \<le> 15" using Cons.prems(6) by simp
  ultimately obtain z where z: "fl_round (a + w) = Fin z" "near (Suc n) (A + exact_weight k) z"
    using fl_round_near by blast
  have "\<exists>t. sum_weights (int_scores ks) (Fin z) = Fin t
           \<and> near (Suc n + length ks) (A + exact_weight k + exact_weights ks) t"
  proof (rule Cons.IH [OF z(2)])
    show "0 \<le> A + exact_weight k" using Cons.prems(2) wb by simp
    show "A + exact_weight k = 0 \<or> 1 / 16 \<le> A + exact_weight k"
      using Cons.prems(2) wb by auto
    show "A + exact_weight k + of_nat (length ks) \<le> 1000"
      using Cons.prems(4) wb by simp
    show "1 \<le> Suc n" by simp
    show "Suc n + length ks \<le> 16" using Cons.prems(6) by simp
  qed
  then show ?case
    using w(1) z(1) by (simp add: ks1 int_scores_def exact_weights_def add.assoc)
qed

text \<open>
  A value within \<open>1 / 24\<close> of a fraction with a denominator of at most 24 has the
  floor of the fraction, or one less when the fraction is an integer.
\<close>

lemma floor_near_fraction:
  fixes z :: rat
  assumes "0 < B" and "B \<le> 24" and "\<bar>z - of_int A / of_int B\<bar> < 1 / 24"
  shows "\<lceil>(of_int A / of_int B :: rat)\<rceil> - 1 \<le> \<lfloor>z\<rfloor> \<and> \<lfloor>z\<rfloor> \<le> \<lfloor>(of_int A / of_int B :: rat)\<rfloor>"
proof -
  define m where "m = A div B"
  define r where "r = A mod B"
  define q :: rat where "q = of_int A / of_int B"
  have A: "A = m * B + r" by (simp add: m_def r_def)
  have r: "0 \<le> r" "r < B" using assms(1) by (simp_all add: r_def)
  have Bpos: "(0::rat) < of_int B" using assms(1) by simp
  have "(of_int A :: rat) = of_int m * of_int B + of_int r"
    using A by (metis of_int_add of_int_mult)
  then have q: "q = of_int m + of_int r / of_int B"
    using Bpos by (simp add: q_def field_simps)
  have fl: "\<lfloor>q\<rfloor> = m" unfolding q_def m_def by (rule floor_divide_of_int_eq)
  have "z - q < 1 / 24" and "- (z - q) < 1 / 24"
    using assms(3) unfolding q_def by (auto simp only: abs_less_iff)
  then have zq: "q - 1 / 24 < z" "z < q + 1 / 24"
    by simp_all
  have B24: "(1::rat) / 24 \<le> 1 / of_int B"
  proof -
    have "(of_int B :: rat) \<le> of_int 24" using assms(2) by (simp only: of_int_le_iff)
    then show ?thesis using Bpos by (simp add: field_simps)
  qed
  show ?thesis
  proof (cases "r = 0")
    case True
    then have qm: "q = of_int m" using q by simp
    then have ce: "\<lceil>q\<rceil> = m" by simp
    have "of_int (m - 1) \<le> z" using zq(1) qm by simp
    then have 1: "m - 1 \<le> \<lfloor>z\<rfloor>" by (simp only: le_floor_iff)
    have "z < of_int (m + 1)" using zq(2) qm by simp
    then have 2: "\<lfloor>z\<rfloor> < m + 1" by (simp only: floor_less_iff)
    show ?thesis using 1 2 ce fl unfolding q_def by simp
  next
    case False
    then have r1: "1 \<le> r" using r(1) by simp
    have rB: "r \<le> B - 1" using r(2) by simp
    have lo: "1 / of_int B \<le> (of_int r / of_int B :: rat)"
    proof -
      have "(of_int 1 :: rat) \<le> of_int r" using r1 by (simp only: of_int_le_iff)
      then show ?thesis using Bpos by (simp add: divide_right_mono)
    qed
    have hi: "(of_int r / of_int B :: rat) \<le> 1 - 1 / of_int B"
    proof -
      have "(of_int r :: rat) \<le> of_int (B - 1)" using rB by (simp only: of_int_le_iff)
      then have "(of_int r / of_int B :: rat) \<le> of_int (B - 1) / of_int B"
        using Bpos by (simp add: divide_right_mono)
      also have "\<dots> = 1 - 1 / of_int B" using Bpos by (simp add: field_simps)
      finally show ?thesis .
    qed
    have iB: "(0::rat) < 1 / of_int B" using Bpos by simp
    have "of_int m < q" using q lo iB by linarith
    moreover have "q < of_int m + 1" using q hi iB by linarith
    ultimately have nint: "of_int m < q" "q < of_int (m + 1)" by simp_all
    have ce: "\<lceil>q\<rceil> = m + 1"
      using nint by (intro ceiling_unique) auto
    have "of_int m \<le> z" using zq(1) q lo B24 by linarith
    then have 1: "m \<le> \<lfloor>z\<rfloor>" by (simp only: le_floor_iff)
    have "z < of_int m + 1" using zq(2) q hi B24 by linarith
    then have "z < of_int (m + 1)" by simp
    then have 2: "\<lfloor>z\<rfloor> < m + 1" by (simp only: floor_less_iff)
    show ?thesis using 1 2 ce fl unfolding q_def by simp
  qed
qed

text \<open>Sums of twentieths: the weights are 6, 5, 4 and 5 twentieths.\<close>

definition int_products :: "(kind \<times> int) list \<Rightarrow> int" where
  "int_products ks = (\<Sum>(k, s)\<leftarrow>ks. s * int_weight k)"

definition int_weights :: "(kind \<times> int) list \<Rightarrow> int" where
  "int_weights ks = (\<Sum>(k, s)\<leftarrow>ks. int_weight k)"

lemma exact_products_int: "exact_products ks = of_int (int_products ks) / 20"
  by (induction ks)
     (auto simp: exact_products_def int_products_def exact_weight_int add_divide_distrib)

lemma exact_weights_int: "exact_weights ks = of_int (int_weights ks) / 20"
  by (induction ks)
     (auto simp: exact_weights_def int_weights_def exact_weight_int add_divide_distrib)

lemma int_weights_bounds: "4 * int (length ks) \<le> int_weights ks \<and> int_weights ks \<le> 6 * int (length ks)"
proof (induction ks)
  case Nil
  then show ?case by (simp add: int_weights_def)
next
  case (Cons a ks)
  obtain k s where a: "a = (k, s)" by force
  have "int_weights (a # ks) = int_weight k + int_weights ks"
    by (simp add: int_weights_def a)
  then show ?case using Cons int_weight_bounds [of k] by simp
qed

lemma int_products_bounds:
  assumes "\<forall>(k, s) \<in> set ks. 0 \<le> s \<and> s \<le> 100"
  shows "0 \<le> int_products ks \<and> int_products ks \<le> 100 * int_weights ks"
  using assms
proof (induction ks)
  case Nil
  then show ?case by (simp add: int_products_def int_weights_def)
next
  case (Cons a ks)
  obtain k s where a: "a = (k, s)" by force
  have s: "0 \<le> s" "s \<le> 100" using Cons.prems a by auto
  have e1: "int_products (a # ks) = s * int_weight k + int_products ks"
    by (simp add: int_products_def a)
  have e2: "int_weights (a # ks) = int_weight k + int_weights ks"
    by (simp add: int_weights_def a)
  have w: "0 \<le> int_weight k" using int_weight_bounds(1) [of k] by simp
  have "0 \<le> s * int_weight k" using s(1) w by simp
  moreover have "s * int_weight k \<le> 100 * int_weight k" using s(2) w by (rule mult_right_mono)
  moreover have "0 \<le> int_products ks \<and> int_products ks \<le> 100 * int_weights ks"
    using Cons.prems by (intro Cons.IH) simp
  ultimately show ?case unfolding e1 e2 by simp
qed

lemma error_factors:
  "(1 - 1 / 2 ^ 40 :: rat) \<le> (1 - 1 / 2 ^ 48) / (1 + 1 / 2 ^ 48) * (1 - 1 / 2 ^ 53)"
  "((1 + 1 / 2 ^ 48) / (1 - 1 / 2 ^ 48) * (1 + 1 / 2 ^ 53) :: rat) \<le> 1 + 1 / 2 ^ 40"
  "(1 / 2 :: rat) \<le> (1 - 1 / 2 ^ 48) / (1 + 1 / 2 ^ 48)"
  "((1 + 1 / 2 ^ 48) / (1 - 1 / 2 ^ 48) :: rat) \<le> 2"
  by simp_all

text \<open>
  The score of a list of kinds with \<^verbatim>\<open>int\<close> scores between 0 and 100: with \<open>q\<close>
  the exact weighted average, the score is \<open>\<lfloor>q\<rfloor>\<close>, or \<open>q - 1\<close> when \<open>q\<close> is an
  integer that the float quotient misses from below.
\<close>

lemma overall_score_of_bounds:
  assumes wf: "\<forall>(k, s) \<in> set ks. 0 \<le> s \<and> s \<le> 100"
    and ne: "ks \<noteq> []" and len: "length ks \<le> 4"
  shows "\<exists>n. overall_score_of (int_scores ks) = Inr n \<and> 0 \<le> n
           \<and> \<lceil>exact_products ks / exact_weights ks\<rceil> - 1 \<le> n
           \<and> n \<le> \<lfloor>exact_products ks / exact_weights ks\<rfloor>"
proof -
  define S where "S = exact_products ks"
  define T where "T = exact_weights ks"
  define A where "A = int_products ks"
  define B where "B = int_weights ks"
  define q where "q = S / T"
  have SA: "S = of_int A / 20" by (simp add: S_def A_def exact_products_int)
  have TB: "T = of_int B / 20" by (simp add: T_def B_def exact_weights_int)
  have lpos: "1 \<le> length ks" using ne by (cases ks) auto
  have B: "4 \<le> B" "B \<le> 24"
    using int_weights_bounds [of ks] len lpos by (auto simp: B_def)
  have A: "0 \<le> A" "A \<le> 100 * B"
    using int_products_bounds [OF wf] by (auto simp: A_def B_def)
  have Bq: "(4::rat) \<le> of_int B" "(of_int B :: rat) \<le> 24"
    using B of_int_le_iff [of 4 B, where ?'a = rat] of_int_le_iff [of B 24, where ?'a = rat]
    by simp_all
  have Aq: "(0::rat) \<le> of_int A" "(of_int A :: rat) \<le> 100 * of_int B"
    using A of_int_le_iff [of 0 A, where ?'a = rat]
      of_int_le_iff [of A "100 * B", where ?'a = rat] by simp_all
  have T: "1 / 5 \<le> T" "T \<le> 6 / 5" using Bq by (simp_all add: TB)
  have S: "0 \<le> S" "S \<le> 100 * T" using Aq by (simp_all add: SA TB)
  have qAB: "q = of_int A / of_int B" using Bq by (simp add: q_def SA TB)
  have q: "0 \<le> q" "q \<le> 100"
    using S T by (simp_all add: q_def pos_divide_le_eq)
  obtain Sf where Sf: "sum_products (int_scores ks) (Fin 0) = Inr (Fin Sf)"
      "near (2 + length ks) (0 + exact_products ks) Sf"
    using sum_products_near [OF wf near_zero [of 2]] len by auto
  obtain Tf where Tf: "sum_weights (int_scores ks) (Fin 0) = Fin Tf"
      "near (1 + length ks) (0 + exact_weights ks) Tf"
    using sum_weights_near [OF near_zero [of 1], of ks] len by auto
  have Sb: "S * (1 - 1 / 2 ^ 48) \<le> Sf" "Sf \<le> S * (1 + 1 / 2 ^ 48)"
    using near_bounds [OF S(1) _ Sf(2) [simplified, folded S_def]] len by auto
  have Tb: "T * (1 - 1 / 2 ^ 48) \<le> Tf" "Tf \<le> T * (1 + 1 / 2 ^ 48)"
    using near_bounds [OF _ _ Tf(2) [simplified, folded T_def]] T(1) len by auto
  have Tpos: "0 < T" using T(1) by simp
  have "0 < T * (1 - 1 / 2 ^ 48)" using Tpos by (intro mult_pos_pos) auto
  then have Tfpos: "0 < Tf" using Tb(1) by linarith
  have sc: "int_scores ks \<noteq> []" using ne by (simp add: int_scores_def)
  have ov: "overall_score_of (int_scores ks) = int_of_float (fl_round (Sf / Tf))"
    using sc Sf(1) Tf(1) Tfpos by (simp add: overall_score_of_def Let_def)
  show ?thesis
  proof (cases "A = 0")
    case True
    then have "S = 0" by (simp add: SA)
    then have "Sf = 0" using Sb by simp
    then have ov0: "overall_score_of (int_scores ks) = Inr 0"
      by (simp add: ov fl_round_zero int_of_float_def py_trunc_def)
    have qz: "exact_products ks / exact_weights ks = 0"
      using \<open>S = 0\<close> by (simp add: S_def)
    have "Inr 0 = (Inr 0 :: py_error + int) \<and> (0::int) \<le> 0
        \<and> \<lceil>(0::rat)\<rceil> - 1 \<le> (0::int) \<and> (0::int) \<le> \<lfloor>(0::rat)\<rfloor>"
      by simp
    then show ?thesis
      unfolding qz ov0 by (rule exI)
  next
    case False
    then have "1 \<le> A" using A(1) by simp
    then have "(1::rat) \<le> of_int A" using of_int_le_iff [of 1 A, where ?'a = rat] by simp
    then have S5: "1 / 20 \<le> S" by (simp add: SA)
    have q24: "1 / 24 \<le> q"
    proof -
      have "(1 / 20) / (6 / 5) \<le> S / T" using S5 T Tpos by (intro frac_le) auto
      then show ?thesis by (simp add: q_def)
    qed
    define y where "y = Sf / Tf"
    have ylo: "q * ((1 - 1 / 2 ^ 48) / (1 + 1 / 2 ^ 48)) \<le> y"
    proof -
      have "0 \<le> S * (1 - 1 / 2 ^ 48)" using S(1) by (intro mult_nonneg_nonneg) auto
      then have "S * (1 - 1 / 2 ^ 48) / (T * (1 + 1 / 2 ^ 48)) \<le> Sf / Tf"
        using Sb(1) Tfpos Tb(2) by (intro frac_le) auto
      then show ?thesis by (simp add: q_def y_def)
    qed
    have yhi: "y \<le> q * ((1 + 1 / 2 ^ 48) / (1 - 1 / 2 ^ 48))"
    proof -
      have "0 < T * (1 - 1 / 2 ^ 48)" using Tpos by (intro mult_pos_pos) auto
      moreover have "0 \<le> S * (1 - 1 / 2 ^ 48)" using S(1) by (intro mult_nonneg_nonneg) auto
      then have "0 \<le> Sf" using Sb(1) by linarith
      ultimately have "Sf / Tf \<le> S * (1 + 1 / 2 ^ 48) / (T * (1 - 1 / 2 ^ 48))"
        using Sb(2) Tb(1) by (intro frac_le) auto
      then show ?thesis by (simp add: q_def y_def)
    qed
    have "q * (1 / 2) \<le> q * ((1 - 1 / 2 ^ 48) / (1 + 1 / 2 ^ 48))"
      using q(1) error_factors(3) by (rule mult_left_mono [rotated])
    then have y48: "1 / 48 \<le> y" using ylo q24 by linarith
    have "q * ((1 + 1 / 2 ^ 48) / (1 - 1 / 2 ^ 48)) \<le> q * 2"
      using q(1) error_factors(4) by (rule mult_left_mono [rotated])
    then have y200: "y \<le> 200" using yhi q(2) by linarith
    have "(2::rat) powi (- 1022) \<le> 2 powi (- 6)"
      by (intro power_int_increasing) auto
    also have "\<dots> = 1 / 64" by (simp add: power_int_minus_divide)
    finally have "2 powi (- 1022) \<le> y" using y48 by simp
    moreover have "y < 2 ^ 1023" using y200 by simp
    ultimately obtain z where z: "fl_round y = Fin z"
        "y * (1 - 1 / 2 ^ 53) \<le> z" "z \<le> y * (1 + 1 / 2 ^ 53)"
      using fl_round_normal by blast
    have zlo: "q * (1 - 1 / 2 ^ 40) \<le> z"
    proof -
      have "q * (1 - 1 / 2 ^ 40) \<le> q * ((1 - 1 / 2 ^ 48) / (1 + 1 / 2 ^ 48) * (1 - 1 / 2 ^ 53))"
        using q(1) error_factors(1) by (rule mult_left_mono [rotated])
      also have "\<dots> = q * ((1 - 1 / 2 ^ 48) / (1 + 1 / 2 ^ 48)) * (1 - 1 / 2 ^ 53)"
        by (simp only: mult.assoc)
      also have "\<dots> \<le> y * (1 - 1 / 2 ^ 53)"
        using ylo by (intro mult_right_mono) auto
      finally show ?thesis using z(2) by linarith
    qed
    have zhi: "z \<le> q * (1 + 1 / 2 ^ 40)"
    proof -
      have "y * (1 + 1 / 2 ^ 53) \<le> q * ((1 + 1 / 2 ^ 48) / (1 - 1 / 2 ^ 48)) * (1 + 1 / 2 ^ 53)"
        using yhi by (intro mult_right_mono) auto
      also have "\<dots> = q * ((1 + 1 / 2 ^ 48) / (1 - 1 / 2 ^ 48) * (1 + 1 / 2 ^ 53))"
        by (simp only: mult.assoc)
      also have "\<dots> \<le> q * (1 + 1 / 2 ^ 40)"
        using q(1) error_factors(2) by (rule mult_left_mono [rotated])
      finally show ?thesis using z(3) by linarith
    qed
    have qd: "q * (1 / 2 ^ 40) \<le> 100 * (1 / 2 ^ 40)"
      using q(2) by (intro mult_right_mono) auto
    have d1: "q * (1 - 1 / 2 ^ 40) = q - q * (1 / 2 ^ 40)" by (simp add: right_diff_distrib)
    have d2: "q * (1 + 1 / 2 ^ 40) = q + q * (1 / 2 ^ 40)" by (simp add: distrib_left)
    have "(100::rat) * (1 / 2 ^ 40) < 1 / 24" by simp
    then have zq: "\<bar>z - q\<bar> < 1 / 24"
      using zlo zhi qd unfolding d1 d2 by linarith
    have z0: "0 \<le> z"
    proof -
      have "0 \<le> q * (1 - 1 / 2 ^ 40)" using q(1) by (intro mult_nonneg_nonneg) auto
      then show ?thesis using zlo by linarith
    qed
    have "\<lceil>(of_int A / of_int B :: rat)\<rceil> - 1 \<le> \<lfloor>z\<rfloor> \<and> \<lfloor>z\<rfloor> \<le> \<lfloor>(of_int A / of_int B :: rat)\<rfloor>"
      using B zq unfolding qAB by (intro floor_near_fraction) auto
    moreover have "overall_score_of (int_scores ks) = Inr \<lfloor>z\<rfloor>"
      using z(1) z0 by (simp add: ov y_def [symmetric] int_of_float_def py_trunc_def)
    moreover have "0 \<le> \<lfloor>z\<rfloor>" using z0 by simp
    moreover have "exact_products ks / exact_weights ks = of_int A / of_int B"
      using qAB by (simp add: q_def S_def T_def)
    ultimately show ?thesis by simp
  qed
qed

subsection \<open>Well-formed sub-reports\<close>

text \<open>
  The backends declare their scores \<^verbatim>\<open>int\<close> with \<^verbatim>\<open>ge=0, le=100\<close>. A result is
  well formed for a score key when it is \<^verbatim>\<open>None\<close>, or a dict in which the key, if
  present, has an \<^verbatim>\<open>int\<close> between 0 and 100.
\<close>

fun well_formed :: "json \<Rightarrow> string \<Rightarrow> bool" where
  "well_formed JNull key = True"
| "well_formed (JObj d) key =
     (case map_of d key of
        None \<Rightarrow> True
      | Some (JInt s) \<Rightarrow> 0 \<le> s \<and> s \<le> 100
      | Some v \<Rightarrow> False)"
| "well_formed v key = False"

text \<open>The \<^verbatim>\<open>int\<close> score that a result carries under a key.\<close>

fun int_score :: "json \<Rightarrow> string \<Rightarrow> int option" where
  "int_score (JObj d) key = (case map_of d key of Some (JInt s) \<Rightarrow> Some s | _ \<Rightarrow> None)"
| "int_score v key = None"

text \<open>The kinds whose result carries a score, in the order of the handler, with the score.\<close>

fun present_scores :: "(kind \<Rightarrow> json) \<Rightarrow> kind list \<Rightarrow> (kind \<times> int) list" where
  "present_scores results [] = []"
| "present_scores results (k # ks) =
     (case int_score (results k) (score_key k) of
        None \<Rightarrow> present_scores results ks
      | Some s \<Rightarrow> (k, s) # present_scores results ks)"

lemma map_of_in_keys: "map_of d key = Some v \<Longrightarrow> key \<in> fst ` set d"
  by (metis domI dom_map_of_conv_image_fst)

lemma collect_scores_well_formed:
  assumes "\<forall>k \<in> set ks. well_formed (results k) (score_key k)"
  shows "collect_scores results ks = Inr (int_scores (present_scores results ks))"
  using assms
proof (induction ks)
  case Nil
  then show ?case by (simp add: int_scores_def)
next
  case (Cons k ks)
  have IH: "collect_scores results ks = Inr (int_scores (present_scores results ks))"
    using Cons by simp
  have wf: "well_formed (results k) (score_key k)" using Cons.prems by simp
  show ?case
  proof (cases "results k")
    case (JObj d)
    show ?thesis
    proof (cases "map_of d (score_key k)")
      case None
      then have "score_key k \<notin> fst ` set d"
        by (simp add: map_of_eq_None_iff)
      then show ?thesis using JObj None IH by simp
    next
      case (Some v)
      then obtain s where v: "v = JInt s" using wf JObj by (cases v) auto
      have "d \<noteq> []" using Some by auto
      moreover have "score_key k \<in> fst ` set d" using Some by (rule map_of_in_keys)
      ultimately show ?thesis using JObj Some v IH by (simp add: int_scores_def)
    qed
  qed (use wf IH in auto)
qed

lemma present_scores_range:
  assumes "\<forall>k \<in> set ks. well_formed (results k) (score_key k)"
  shows "\<forall>(k, s) \<in> set (present_scores results ks). 0 \<le> s \<and> s \<le> 100"
  using assms
proof (induction ks)
  case Nil
  then show ?case by simp
next
  case (Cons k ks)
  have wf: "well_formed (results k) (score_key k)" using Cons.prems by simp
  have IH: "\<forall>(k, s) \<in> set (present_scores results ks). 0 \<le> s \<and> s \<le> 100"
    using Cons by simp
  show ?case
  proof (cases "int_score (results k) (score_key k)")
    case None
    then show ?thesis using IH by simp
  next
    case (Some s)
    then obtain d where d: "results k = JObj d" by (cases "results k") auto
    have "map_of d (score_key k) = Some (JInt s)"
      using Some d by (auto split: option.splits json.splits)
    then have "0 \<le> s \<and> s \<le> 100" using wf d by simp
    then show ?thesis using Some IH by simp
  qed
qed

lemma present_scores_length: "length (present_scores results ks) \<le> length ks"
  by (induction ks) (auto split: option.splits)

text \<open>
  The score of well-formed results. With \<open>q\<close> the exact weighted average of the
  scores present, the score is \<open>\<lfloor>q\<rfloor>\<close> when \<open>q\<close> is no integer, and \<open>q\<close> or \<open>q - 1\<close>
  when it is one.
\<close>

lemma overall_score_bounds:
  assumes "\<forall>k. well_formed (results k) (score_key k)"
  shows "\<exists>n. overall_score results = Inr n \<and> 0 \<le> n \<and> n \<le> 100
           \<and> (if present_scores results call_order = [] then n = 0
               else \<lceil>exact_products (present_scores results call_order)
                       / exact_weights (present_scores results call_order)\<rceil> - 1 \<le> n
                  \<and> n \<le> \<lfloor>exact_products (present_scores results call_order)
                            / exact_weights (present_scores results call_order)\<rfloor>)"
proof -
  define ks where "ks = present_scores results call_order"
  have wf: "\<forall>k \<in> set call_order. well_formed (results k) (score_key k)"
    using assms by simp
  have cs: "collect_scores results call_order = Inr (int_scores ks)"
    unfolding ks_def using wf by (rule collect_scores_well_formed)
  have ov: "overall_score results = overall_score_of (int_scores ks)"
    by (simp add: overall_score_def cs)
  show ?thesis
  proof (cases "ks = []")
    case True
    then show ?thesis
      unfolding ks_def [symmetric] by (simp add: ov int_scores_def overall_score_of_def)
  next
    case False
    have rg: "\<forall>(k, s) \<in> set ks. 0 \<le> s \<and> s \<le> 100"
      unfolding ks_def using wf by (rule present_scores_range)
    have len: "length ks \<le> 4"
      using present_scores_length [of results call_order] by (simp add: ks_def call_order_def)
    obtain n where n: "overall_score_of (int_scores ks) = Inr n" "0 \<le> n"
        "\<lceil>exact_products ks / exact_weights ks\<rceil> - 1 \<le> n"
        "n \<le> \<lfloor>exact_products ks / exact_weights ks\<rfloor>"
      using overall_score_of_bounds [OF rg False len] by blast
    have A: "int_products ks \<le> 100 * int_weights ks"
      using int_products_bounds [OF rg] by simp
    have lpos: "1 \<le> length ks" using False by (cases ks) auto
    have B: "0 < int_weights ks" using int_weights_bounds [of ks] lpos by linarith
    have Bq: "(0::rat) < of_int (int_weights ks)" using B by simp
    have "(of_int (int_products ks) :: rat) \<le> of_int (100 * int_weights ks)"
      using A by (simp only: of_int_le_iff)
    then have "(of_int (int_products ks) :: rat) \<le> 100 * of_int (int_weights ks)" by simp
    then have "exact_products ks / exact_weights ks \<le> 100"
      using Bq by (simp add: exact_products_int exact_weights_int pos_divide_le_eq)
    then have "\<lfloor>exact_products ks / exact_weights ks\<rfloor> \<le> \<lfloor>100::rat\<rfloor>"
      by (rule floor_mono)
    moreover have "\<lfloor>100::rat\<rfloor> = 100" by simp
    ultimately have hi: "n \<le> 100" using n(4) by linarith
    show ?thesis
      using False n(1,2,3,4) hi unfolding ks_def [symmetric] by (simp add: ov)
  qed
qed

subsection \<open>An example: two reports\<close>

text \<open>
  The code quality backend answers with score 100, the architecture backend with
  score 99, and the two other calls fail.
\<close>

definition two_reports :: "kind \<Rightarrow> json" where
  "two_reports k = (case k of
      Code_quality \<Rightarrow> JObj [(''score'', JInt 100)]
    | Architecture \<Rightarrow> JObj [(''architecture_score'', JInt 99)]
    | Event_loop \<Rightarrow> JNull
    | Cost \<Rightarrow> JNull)"

lemma two_reports_well_formed: "\<forall>k. well_formed (two_reports k) (score_key k)"
proof
  fix k show "well_formed (two_reports k) (score_key k)"
    by (cases k) (simp_all add: two_reports_def score_key_def)
qed

lemma present_two_reports:
  "present_scores two_reports call_order = [(Code_quality, 100), (Architecture, 99)]"
  by (simp add: call_order_def two_reports_def score_key_def)

lemma average_two_reports:
  "exact_products [(Code_quality, 100), (Architecture, 99)]
     / exact_weights [(Code_quality, 100), (Architecture, 99)] = 1095 / 11"
  by (simp add: exact_products_def exact_weights_def exact_weight_def)

lemma floor_two_reports: "\<lfloor>1095 / 11 :: rat\<rfloor> = 99" "\<lceil>1095 / 11 :: rat\<rceil> = 100"
  by (simp add: floor_numeral_div, rule ceiling_unique, simp_all)



lemma overall_score_two_reports: "overall_score two_reports = Inr 99"
  using overall_score_bounds [OF two_reports_well_formed]
  by (auto simp add: present_two_reports average_two_reports floor_two_reports)

subsection \<open>An example: one report\<close>











subsection \<open>The handler on well-formed results\<close>




lemma save_report_returns:
  "\<exists>db'. save_report db_pool faults db request results report_id score status xp_earned badges
          = Some db'"
proof -
  obtain y where "calculate_level xp_earned = Some y"
    using calculate_level_total by blast
  then show ?thesis
    by (cases y) (auto simp: save_report_def Let_def split: sum.splits option.splits)
qed

lemma save_report_failed_write:
  assumes "acquire_raises faults \<or> insert_raises faults"
  shows "save_report db_pool faults db request results report_id score status xp_earned badges
         = Some db"
  using assms by (auto simp: save_report_def split: sum.splits)


subsection \<open>A failing backend\<close>





subsection \<open>The example, through the handler\<close>

definition two_reports_mcp :: "kind \<Rightarrow> post_result \<times> nat" where
  "two_reports_mcp k = (case k of
      Code_quality \<Rightarrow> (Response 200 (Some (JObj [(''score'', JInt 100)])), 1000)
    | Architecture \<Rightarrow> (Response 200 (Some (JObj [(''architecture_score'', JInt 99)])), 1000)
    | Event_loop \<Rightarrow> (Post_raises, 1000)
    | Cost \<Rightarrow> (Response 503 None, 1000))"

definition no_faults :: db_faults where
  "no_faults = \<lparr> acquire_raises = False, insert_raises = False, update_raises = False \<rparr>"

definition credit_request :: analysis_request where
  "credit_request = \<lparr> req_code = ''x = 1'', req_language = Some ''python'',
     req_file_path = None, req_commit_id = None, req_project_id = Some ''p1'',
     req_user_id = Some ''u1'' \<rparr>"

definition user_db :: database where
  "user_db = \<lparr> analysis_reports = [],
     users = [''u1'' \<mapsto> \<lparr> xp_total = 10000, level = 10 \<rparr>] \<rparr>"

lemma results_two_reports: "(\<lambda>k. result_of (fst (two_reports_mcp k))) = two_reports"
proof
  fix k show "result_of (fst (two_reports_mcp k)) = two_reports k"
    by (cases k) (simp_all add: two_reports_mcp_def two_reports_def)
qed

lemma badges_two_reports:
  "badges_of two_reports 99 = Inr [''Clean Coder'', ''Architect Master'', ''Code Legend'']"
  by (simp add: badges_of_def call_order_def two_reports_def score_key_def badge_name_def)

lemma calls_two_reports:
  "call_log two_reports_mcp 0 call_order =
     [(Code_quality, 0, 1000), (Architecture, 1000, 2000), (Event_loop, 2000, 3000),
      (Cost, 3000, 4000)]"
  by (simp add: call_order_def two_reports_mcp_def)

definition two_reports_response :: "string \<Rightarrow> string \<Rightarrow> analysis_report" where
  "two_reports_response stamp analyzed_at =
     \<lparr> rep_report_id = ''RPT-'' @ stamp,
       rep_overall_score = 99,
       rep_status = ''excellent'',
       rep_code_quality = JObj [(''score'', JInt 100)],
       rep_architecture = JObj [(''architecture_score'', JInt 99)],
       rep_event_loop = JNull,
       rep_cost_analysis = JNull,
       rep_xp_earned = 990,
       rep_badges_earned = [''Clean Coder'', ''Architect Master'', ''Code Legend''],
       rep_level_up = True,
       rep_analyzed_at = analyzed_at \<rparr>"

lemma analyze_two_reports:
  "analyze_code db_pool faults stamp analyzed_at two_reports_mcp db request =
     map_option (\<lambda>db'. (Inr (two_reports_response stamp analyzed_at), db',
          [(Code_quality, 0, 1000), (Architecture, 1000, 2000), (Event_loop, 2000, 3000),
           (Cost, 3000, 4000)]))
       (save_report db_pool faults db request two_reports (''RPT-'' @ stamp) 99 ''excellent'' 990
          [''Clean Coder'', ''Architect Master'', ''Code Legend''])"
  by (simp add: analyze_code_def call_mcps_def results_two_reports overall_score_two_reports
        badges_two_reports calls_two_reports status_of_def analysis_report_of_def
        two_reports_response_def Let_def split: option.splits)
    (simp add: two_reports_def)

lemma calculate_level_below:
  "xp < 2 ^ 51 \<Longrightarrow> calculate_level xp = Some (Inr (level_reference xp))"
  unfolding calculate_level_def level_reference_def
  by (intro level_loop_reference) auto

lemma level_reference_examples:
  "level_reference 990 = 5" "level_reference 10000 = 10" "level_reference 10990 = 10"
  by code_simp+

lemma calculate_level_examples:
  "calculate_level 990 = Some (Inr 5)" "calculate_level 10000 = Some (Inr 10)"
  "calculate_level 10990 = Some (Inr 10)"
  by (simp_all add: calculate_level_below level_reference_examples)

text \<open>
  Claim C1 on the code. The user \<^verbatim>\<open>u1\<close> has 10000 XP and the level 10 of
  \<^verbatim>\<open>calculate_level(10000)\<close>. The report earns 990 XP and the write succeeds: the
  user then has 10990 XP and the stored level 5, the level of the 990 XP of this
  report, where \<^verbatim>\<open>calculate_level(10990)\<close> is 10.
\<close>

theorem credit_level_from_delta:
  "calculate_level 10000 = Some (Inr 10)
   \<and> map_option (\<lambda>(response, db', calls). users db' ''u1'')
       (analyze_code True no_faults ''20261104120000'' ''2026-11-04T12:00:00''
          two_reports_mcp user_db credit_request) =
     Some (Some \<lparr> xp_total = 10990, level = 5 \<rparr>)
   \<and> calculate_level 10990 = Some (Inr 10)"
  by (simp add: analyze_two_reports calculate_level_examples save_report_def no_faults_def
        credit_request_def user_db_def score_column_def two_reports_def score_key_def
        update_user_def Let_def)





subsection \<open>A failing write\<close>

text \<open>
  Claim C8, as the code has it. Whatever fails in the block that saves the report,
  the handler returns, with the response and the calls it returns when nothing
  fails; when the connection is not acquired or the \<^verbatim>\<open>INSERT\<close> fails, the database
  is left as it was.
\<close>

theorem write_failure_not_propagated:
  "\<exists>response db1 db2 calls.
     analyze_code db_pool faults stamp analyzed_at mcp db request = Some (response, db1, calls)
     \<and> analyze_code db_pool no_faults stamp analyzed_at mcp db request =
         Some (response, db2, calls)
     \<and> (acquire_raises faults \<or> insert_raises faults \<longrightarrow> db1 = db)"
proof -
  define results where "results = (\<lambda>k. result_of (fst (mcp k)))"
  show ?thesis
  proof (cases "overall_score results")
    case (Inl e)
    then show ?thesis
      by (simp add: analyze_code_def call_mcps_def results_def [symmetric])
  next
    case score: (Inr score)
    show ?thesis
    proof (cases "badges_of results score")
      case (Inl e)
      then show ?thesis
        using score by (simp add: analyze_code_def call_mcps_def results_def [symmetric])
    next
      case (Inr badges)
      obtain db1 where db1: "save_report db_pool faults db request results
          (''RPT-'' @ stamp) score (status_of score) (score * 10) badges = Some db1"
        using save_report_returns by blast
      obtain db2 where db2: "save_report db_pool no_faults db request results
          (''RPT-'' @ stamp) score (status_of score) (score * 10) badges = Some db2"
        using save_report_returns by blast
      have "acquire_raises faults \<or> insert_raises faults \<longrightarrow> db1 = db"
        using db1 save_report_failed_write [of faults db_pool db request results
          "''RPT-'' @ stamp" score "status_of score" "score * 10" badges] by auto
      then show ?thesis
        using score Inr db1 db2
        by (simp add: analyze_code_def call_mcps_def results_def [symmetric] Let_def)
    qed
  qed
qed

lemma save_two_reports:
  "save_report True no_faults user_db credit_request two_reports ''RPT-20261104120000'' 99
     ''excellent'' 990 [''Clean Coder'', ''Architect Master'', ''Code Legend''] =
   Some \<lparr> analysis_reports =
            [\<lparr> row_report_id = JStr ''RPT-20261104120000'',
                row_project_id = JStr ''p1'',
                row_commit_id = JNull,
                row_file_path = JNull,
                row_overall_score = JInt 99,
                row_status = JStr ''excellent'',
                row_code_quality_score = JInt 100,
                row_architecture_score = JInt 99,
                row_event_loop_score = JNull,
                row_efficiency_score = JNull,
                row_code_quality_report = Some (JObj [(''score'', JInt 100)]),
                row_architecture_report = Some (JObj [(''architecture_score'', JInt 99)]),
                row_event_loop_report = None,
                row_cost_report = None,
                row_xp_earned = JInt 990,
                row_badges_earned =
                  JArr [JStr ''Clean Coder'', JStr ''Architect Master'', JStr ''Code Legend''] \<rparr>],
          users = [''u1'' \<mapsto> \<lparr> xp_total = 10990, level = 5 \<rparr>] \<rparr>"
  by (simp add: calculate_level_examples save_report_def no_faults_def
        credit_request_def user_db_def score_column_def report_column_def two_reports_def
        score_key_def update_user_def Let_def)

theorem write_failure_not_propagated_witness:
  "analyze_code True \<lparr> acquire_raises = True, insert_raises = False, update_raises = False \<rparr>
     ''20261104120000'' ''2026-11-04T12:00:00'' two_reports_mcp user_db credit_request =
   Some (Inr (two_reports_response ''20261104120000'' ''2026-11-04T12:00:00''), user_db,
         [(Code_quality, 0, 1000), (Architecture, 1000, 2000), (Event_loop, 2000, 3000),
          (Cost, 3000, 4000)])"
  using write_failure_not_propagated
    [of True "\<lparr> acquire_raises = True, insert_raises = False, update_raises = False \<rparr>"
        "''20261104120000''" "''2026-11-04T12:00:00''" two_reports_mcp user_db credit_request]
  by (auto simp add: analyze_two_reports [of True no_faults] save_two_reports)

text \<open>
  Claim C8 as stated has the handler fail when the write fails. The request below
  names a project and the \<^verbatim>\<open>INSERT\<close> raises: the handler answers with the report,
  and the database is unchanged.
\<close>

theorem write_failure_response_counterexample:
  "analyze_code True \<lparr> acquire_raises = False, insert_raises = True, update_raises = False \<rparr>
     ''20261104120000'' ''2026-11-04T12:00:00'' two_reports_mcp user_db credit_request =
   Some (Inr \<lparr> rep_report_id = ''RPT-20261104120000'',
               rep_overall_score = 99,
               rep_status = ''excellent'',
               rep_code_quality = JObj [(''score'', JInt 100)],
               rep_architecture = JObj [(''architecture_score'', JInt 99)],
               rep_event_loop = JNull,
               rep_cost_analysis = JNull,
               rep_xp_earned = 990,
               rep_badges_earned = [''Clean Coder'', ''Architect Master'', ''Code Legend''],
               rep_level_up = True,
               rep_analyzed_at = ''2026-11-04T12:00:00'' \<rparr>,
         user_db,
         [(Code_quality, 0, 1000), (Architecture, 1000, 2000), (Event_loop, 2000, 3000),
          (Cost, 3000, 4000)])
   \<and> req_project_id credit_request = Some ''p1''"
  by (simp add: analyze_two_reports save_report_failed_write two_reports_response_def
        credit_request_def)

subsection \<open>The order of the calls\<close>

text \<open>
  Claim C6 on the code. Each of the four backends takes 1000 ms to settle. The
  calls are made at 0, 1000, 2000 and 3000 ms, each when the one before has settled,
  and the last settles at 4000 ms: the sum of the four times, not their maximum.
\<close>

theorem calls_one_after_another:
  "map_option (\<lambda>(response, db', calls). calls)
     (analyze_code True no_faults ''20261104120000'' ''2026-11-04T12:00:00'' two_reports_mcp
        user_db credit_request) =
   Some [(Code_quality, 0, 1000), (Architecture, 1000, 2000), (Event_loop, 2000, 3000),
         (Cost, 3000, 4000)]
   \<and> map (\<lambda>k. snd (two_reports_mcp k)) call_order = [1000, 1000, 1000, 1000]"
  by (simp add: analyze_two_reports save_two_reports call_order_def two_reports_mcp_def)

section \<open>The gateway: \<^verbatim>\<open>POST /api/reports\<close>\<close>

text \<open>
  The handler \<^verbatim>\<open>store_report\<close> of \<^verbatim>\<open>backend/main.py\<close> (lines 756-801). The body
  of the request is a dict, \<^verbatim>\<open>report: Dict[str, Any]\<close>.
\<close>

text \<open>\<^verbatim>\<open>report.get(key, default)\<close> on a dict.\<close>

definition dict_get :: "(string \<times> json) list \<Rightarrow> string \<Rightarrow> json \<Rightarrow> json" where
  "dict_get d key dflt = (case map_of d key of None \<Rightarrow> dflt | Some v \<Rightarrow> v)"

text \<open>
  \<^verbatim>\<open>report.get(outer, {}).get(inner, default)\<close>: the second \<^verbatim>\<open>get\<close> raises when the
  value under \<open>outer\<close> is no dict.
\<close>

definition get_in :: "(string \<times> json) list \<Rightarrow> string \<Rightarrow> string \<Rightarrow> json \<Rightarrow> py_error + json" where
  "get_in report outer inner dflt = py_get (dict_get report outer (JObj [])) inner dflt"

text \<open>
  The statement \<^verbatim>\<open>INSERT ... ON CONFLICT (report_id) DO UPDATE SET ...\<close>. A row with
  the report id of the new one takes its \<^verbatim>\<open>overall_score\<close>, \<^verbatim>\<open>status\<close> and four
  report columns and keeps its other columns; without such a row the new one is
  added. \<^verbatim>\<open>NULL\<close> conflicts with nothing.
\<close>

fun upsert :: "report_row \<Rightarrow> report_row list \<Rightarrow> report_row list" where
  "upsert new [] = [new]"
| "upsert new (row # rows) =
     (if row_report_id row = row_report_id new \<and> row_report_id new \<noteq> JNull
      then row\<lparr> row_overall_score := row_overall_score new,
                row_status := row_status new,
                row_code_quality_report := row_code_quality_report new,
                row_architecture_report := row_architecture_report new,
                row_event_loop_report := row_event_loop_report new,
                row_cost_report := row_cost_report new \<rparr> # rows
      else row # upsert new rows)"

text \<open>
  What the handler returns: the dict with status \<^verbatim>\<open>warning\<close> when there is no
  pool, the dict with status \<^verbatim>\<open>success\<close> and the report id, or the dict with
  status \<^verbatim>\<open>error\<close> when an exception is caught.
\<close>

datatype store_outcome = Database_unavailable | Stored json | Store_failed

text \<open>
  The arguments of the statement are evaluated before it runs; the columns
  \<^verbatim>\<open>project_id\<close>, \<^verbatim>\<open>commit_id\<close> and \<^verbatim>\<open>file_path\<close> are not named and stay
  \<^verbatim>\<open>NULL\<close>. \<^verbatim>\<open>json.dumps(None)\<close> is the text \<^verbatim>\<open>null\<close>, so that a report column
  is never \<^verbatim>\<open>NULL\<close> here.
\<close>

definition store_report ::
  "bool \<Rightarrow> db_faults \<Rightarrow> database \<Rightarrow> (string \<times> json) list \<Rightarrow> store_outcome \<times> database" where
  "store_report db_pool faults db report =
     (if \<not> db_pool then (Database_unavailable, db)
      else if acquire_raises faults then (Store_failed, db)
      else
        (case (get_in report ''code_quality'' ''score'' JNull,
               get_in report ''architecture'' ''score'' JNull,
               get_in report ''event_loop'' ''score'' JNull,
               get_in report ''cost_analysis'' ''score'' JNull,
               get_in report ''rpg_summary'' ''xp_earned'' (JInt 0),
               get_in report ''rpg_summary'' ''badges_earned'' (JArr [])) of
           (Inr s1, Inr s2, Inr s3, Inr s4, Inr xp_earned, Inr badges) \<Rightarrow>
             if insert_raises faults then (Store_failed, db)
             else
               (Stored (dict_get report ''report_id'' JNull),
                db\<lparr>analysis_reports := upsert
                     \<lparr> row_report_id = dict_get report ''report_id'' JNull,
                       row_project_id = JNull,
                       row_commit_id = JNull,
                       row_file_path = JNull,
                       row_overall_score = dict_get report ''overall_score'' (JInt 0),
                       row_status = dict_get report ''status'' (JStr ''unknown''),
                       row_code_quality_score = s1,
                       row_architecture_score = s2,
                       row_event_loop_score = s3,
                       row_efficiency_score = s4,
                       row_code_quality_report = Some (dict_get report ''code_quality'' JNull),
                       row_architecture_report = Some (dict_get report ''architecture'' JNull),
                       row_event_loop_report = Some (dict_get report ''event_loop'' JNull),
                       row_cost_report = Some (dict_get report ''cost_analysis'' JNull),
                       row_xp_earned = xp_earned,
                       row_badges_earned = badges \<rparr>
                     (analysis_reports db)\<rparr>)
         | _ \<Rightarrow> (Store_failed, db)))"

subsection \<open>Two submissions with one report id\<close>

text \<open>The columns that the statement overwrites.\<close>

definition overwritten :: "report_row \<Rightarrow> json \<times> json \<times> json option \<times> json option \<times> json option \<times> json option" where
  "overwritten row = (row_overall_score row, row_status row, row_code_quality_report row,
     row_architecture_report row, row_event_loop_report row, row_cost_report row)"

lemma upsert_one_row:
  assumes "row_report_id new = JStr rid"
    and "length (filter (\<lambda>r. row_report_id r = JStr rid) rows) \<le> 1"
  shows "\<exists>row. filter (\<lambda>r. row_report_id r = JStr rid) (upsert new rows) = [row]
           \<and> overwritten row = overwritten new"
  using assms(2)
proof (induction rows)
  case Nil
  then show ?case using assms(1) by simp
next
  case (Cons r rows)
  show ?case
  proof (cases "row_report_id r = JStr rid")
    case True
    then have "filter (\<lambda>r. row_report_id r = JStr rid) rows = []"
      using Cons.prems by simp
    then show ?thesis using True assms(1) by (simp add: overwritten_def)
  next
    case False
    then show ?thesis using Cons assms(1) by simp
  qed
qed

lemma store_report_stored:
  assumes "store_report db_pool faults db report = (Stored rid, db')"
  shows "\<exists>new. analysis_reports db' = upsert new (analysis_reports db)
           \<and> row_report_id new = rid
           \<and> rid = dict_get report ''report_id'' JNull
           \<and> overwritten new =
               (dict_get report ''overall_score'' (JInt 0),
                dict_get report ''status'' (JStr ''unknown''),
                Some (dict_get report ''code_quality'' JNull),
                Some (dict_get report ''architecture'' JNull),
                Some (dict_get report ''event_loop'' JNull),
                Some (dict_get report ''cost_analysis'' JNull))"
  using assms
  by (auto simp: store_report_def overwritten_def split: if_splits sum.splits)

text \<open>
  Claim C3, as the code has it. The table holds at most one row with the report
  id, as the unique index that \<^verbatim>\<open>ON CONFLICT (report_id)\<close> needs makes it, and two
  submissions with this report id are answered with status \<^verbatim>\<open>success\<close>, one after
  the other. Then the table holds exactly one row with the report id, and its
  \<^verbatim>\<open>overall_score\<close>, \<^verbatim>\<open>status\<close> and four report columns are those of the second
  submission.
\<close>

theorem store_report_twice:
  assumes "length (filter (\<lambda>r. row_report_id r = JStr rid) (analysis_reports db)) \<le> 1"
    and "store_report db_pool1 faults1 db first = (Stored (JStr rid), db1)"
    and "store_report db_pool2 faults2 db1 second = (Stored (JStr rid), db2)"
  shows "\<exists>row. filter (\<lambda>r. row_report_id r = JStr rid) (analysis_reports db2) = [row]
           \<and> row_overall_score row = dict_get second ''overall_score'' (JInt 0)
           \<and> row_status row = dict_get second ''status'' (JStr ''unknown'')
           \<and> row_code_quality_report row = Some (dict_get second ''code_quality'' JNull)
           \<and> row_architecture_report row = Some (dict_get second ''architecture'' JNull)
           \<and> row_event_loop_report row = Some (dict_get second ''event_loop'' JNull)
           \<and> row_cost_report row = Some (dict_get second ''cost_analysis'' JNull)"
proof -
  obtain new1 where n1: "analysis_reports db1 = upsert new1 (analysis_reports db)"
      "row_report_id new1 = JStr rid"
    using store_report_stored [OF assms(2)] by blast
  obtain row1 where "filter (\<lambda>r. row_report_id r = JStr rid) (analysis_reports db1) = [row1]"
    unfolding n1(1) using upsert_one_row [OF n1(2) assms(1)] by blast
  then have one: "length (filter (\<lambda>r. row_report_id r = JStr rid) (analysis_reports db1)) \<le> 1"
    by simp
  obtain new2 where n2: "analysis_reports db2 = upsert new2 (analysis_reports db1)"
      "row_report_id new2 = JStr rid"
      "overwritten new2 =
               (dict_get second ''overall_score'' (JInt 0),
                dict_get second ''status'' (JStr ''unknown''),
                Some (dict_get second ''code_quality'' JNull),
                Some (dict_get second ''architecture'' JNull),
                Some (dict_get second ''event_loop'' JNull),
                Some (dict_get second ''cost_analysis'' JNull))"
    using store_report_stored [OF assms(3)] by blast
  obtain row where row: "filter (\<lambda>r. row_report_id r = JStr rid) (analysis_reports db2) = [row]"
      "overwritten row = overwritten new2"
    unfolding n2(1) using upsert_one_row [OF n2(2) one] by blast
  show ?thesis
    using row n2(3) by (auto simp: overwritten_def)
qed

subsection \<open>An example\<close>

definition first_report :: "(string \<times> json) list" where
  "first_report =
     [(''report_id'', JStr ''RPT-20261104120000''),
      (''overall_score'', JInt 90),
      (''status'', JStr ''excellent''),
      (''code_quality'', JObj [(''score'', JInt 90)]),
      (''rpg_summary'',
         JObj [(''xp_earned'', JInt 900), (''badges_earned'', JArr [JStr ''Clean Coder''])])]"

definition second_report :: "(string \<times> json) list" where
  "second_report =
     [(''report_id'', JStr ''RPT-20261104120000''),
      (''overall_score'', JInt 40),
      (''status'', JStr ''critical''),
      (''code_quality'', JObj [(''score'', JInt 40)]),
      (''rpg_summary'', JObj [(''xp_earned'', JInt 400), (''badges_earned'', JArr [])])]"

definition empty_db :: database where
  "empty_db = \<lparr> analysis_reports = [], users = Map.empty \<rparr>"

definition first_row :: report_row where
  "first_row =
     \<lparr> row_report_id = JStr ''RPT-20261104120000'',
       row_project_id = JNull,
       row_commit_id = JNull,
       row_file_path = JNull,
       row_overall_score = JInt 90,
       row_status = JStr ''excellent'',
       row_code_quality_score = JInt 90,
       row_architecture_score = JNull,
       row_event_loop_score = JNull,
       row_efficiency_score = JNull,
       row_code_quality_report = Some (JObj [(''score'', JInt 90)]),
       row_architecture_report = Some JNull,
       row_event_loop_report = Some JNull,
       row_cost_report = Some JNull,
       row_xp_earned = JInt 900,
       row_badges_earned = JArr [JStr ''Clean Coder''] \<rparr>"

lemma store_first_report:
  "store_report True no_faults empty_db first_report =
     (Stored (JStr ''RPT-20261104120000''), empty_db\<lparr>analysis_reports := [first_row]\<rparr>)"
  by (simp add: store_report_def no_faults_def empty_db_def first_report_def first_row_def
        get_in_def dict_get_def)

lemma store_second_report:
  "store_report True no_faults (empty_db\<lparr>analysis_reports := [first_row]\<rparr>) second_report =
     (Stored (JStr ''RPT-20261104120000''),
      empty_db\<lparr>analysis_reports :=
        [first_row\<lparr> row_overall_score := JInt 40, row_status := JStr ''critical'',
                     row_code_quality_report := Some (JObj [(''score'', JInt 40)]) \<rparr>]\<rparr>)"
  by (simp add: store_report_def no_faults_def empty_db_def second_report_def first_row_def
        get_in_def dict_get_def)

theorem store_report_twice_witness:
  "\<exists>row. filter (\<lambda>r. row_report_id r = JStr ''RPT-20261104120000'')
            (analysis_reports
               (snd (store_report True no_faults
                       (snd (store_report True no_faults empty_db first_report))
                       second_report))) = [row]
         \<and> row_overall_score row = JInt 40
         \<and> row_status row = JStr ''critical''
         \<and> row_code_quality_report row = Some (JObj [(''score'', JInt 40)])
         \<and> row_architecture_report row = Some JNull
         \<and> row_event_loop_report row = Some JNull
         \<and> row_cost_report row = Some JNull"
  using store_report_twice [of "''RPT-20261104120000''" empty_db True no_faults first_report
      "empty_db\<lparr>analysis_reports := [first_row]\<rparr>" True no_faults second_report
      "empty_db\<lparr>analysis_reports :=
        [first_row\<lparr> row_overall_score := JInt 40, row_status := JStr ''critical'',
                     row_code_quality_report := Some (JObj [(''score'', JInt 40)]) \<rparr>]\<rparr>"]
  by (simp add: store_first_report store_second_report)
    (simp add: second_report_def dict_get_def first_row_def)

text \<open>
  Claim C3 as stated has the badges of the second submission stored. The two
  reports below carry one report id; the second has the score 40, the status
  \<^verbatim>\<open>critical\<close>, 400 XP and no badge. The one row afterwards has the score and the
  status of the second, and the code quality score 90, the 900 XP and the badge of the
  first.
\<close>

theorem store_report_badges_counterexample:
  "map (\<lambda>row. (row_overall_score row, row_status row, row_code_quality_score row,
               row_xp_earned row, row_badges_earned row))
     (analysis_reports
        (snd (store_report True no_faults
                (snd (store_report True no_faults empty_db first_report))
                second_report))) =
   [(JInt 40, JStr ''critical'', JInt 90, JInt 900, JArr [JStr ''Clean Coder''])]
   \<and> get_in second_report ''rpg_summary'' ''badges_earned'' (JArr []) = Inr (JArr [])"
  by (simp add: store_first_report store_second_report)
    (simp add: empty_db_def first_row_def second_report_def get_in_def dict_get_def)

end
